theory Spec2Isabelle
  imports Complex_Main "HOL-Library.Multiset"
begin

section \<open>Python values, strings and exceptions\<close>

text \<open>
  The two programs (\<^verbatim>\<open>seller.py\<close> for Ozon, \<^verbatim>\<open>market.py\<close> for Yandex Market) read
  spreadsheet rows as dictionaries whose cells are strings, integers or absent.
  A cell is a \<open>pyval\<close>; \<open>PNone\<close> is what \<^verbatim>\<open>dict.get\<close> returns for an absent key.
  Python strings are modelled as \<open>string\<close>; text outside ASCII stands for its UTF-8
  bytes. Equality, membership, splitting at \<^verbatim>\<open>"."\<close> and the class \<^verbatim>\<open>[^0-9]\<close> agree
  on code points and on UTF-8 bytes. Floating-point cells are outside the model.
\<close>

datatype pyval = PNone | PInt int | PStr string

text \<open>
  The exceptions the code can raise. \<open>ConnectTimeout\<close> is a subclass of
  \<^verbatim>\<open>requests.exceptions.ConnectionError\<close>; \<open>ReadTimeout\<close> is not. Signals that do not
  derive from \<^verbatim>\<open>Exception\<close> (a keyboard interrupt) are outside the model.
\<close>

datatype exn =
    ReadTimeout | ConnectionError | ConnectTimeout | HTTPError
  | ValueError | TypeError | AttributeError | IndexError

subsection \<open>\<^verbatim>\<open>str(x)\<close>\<close>

fun string_of_nat :: "nat \<Rightarrow> string" where
  "string_of_nat n =
     (if n < 10 then [''0123456789'' ! n]
      else string_of_nat (n div 10) @ [''0123456789'' ! (n mod 10)])"

definition string_of_int :: "int \<Rightarrow> string" where
  "string_of_int i =
     (if i < 0 then CHR ''-'' # string_of_nat (nat (- i)) else string_of_nat (nat i))"

fun py_str :: "pyval \<Rightarrow> string" where
  "py_str PNone = ''None''"
| "py_str (PInt i) = string_of_int i"
| "py_str (PStr s) = s"

subsection \<open>\<^verbatim>\<open>int(x)\<close>\<close>

text \<open>
  \<^verbatim>\<open>int\<close> of a string, base ten, on ASCII text: surrounding whitespace (the space and
  the characters 0x09 to 0x0D, nothing else) is stripped, one sign is allowed, and the
  digits may be grouped by single underscores. Anything else raises \<^verbatim>\<open>ValueError\<close>.
  \<^verbatim>\<open>int(None)\<close> raises \<^verbatim>\<open>TypeError\<close>.
\<close>

definition is_digit :: "char \<Rightarrow> bool" where
  "is_digit c = (c \<in> set ''0123456789'')"

definition digit_val :: "char \<Rightarrow> nat" where
  "digit_val c = of_char c - 48"

definition is_space :: "char \<Rightarrow> bool" where
  "is_space c =
     (c \<in> set [CHR '' '', CHR 0x09, CHR 0x0A, CHR 0x0B, CHR 0x0C, CHR 0x0D])"

definition py_strip :: "string \<Rightarrow> string" where
  "py_strip s = rev (dropWhile is_space (rev (dropWhile is_space s)))"

fun parse_digits :: "nat \<Rightarrow> string \<Rightarrow> nat option" where
  "parse_digits acc [] = Some acc"
| "parse_digits acc (c # cs) =
     (if is_digit c then parse_digits (10 * acc + digit_val c) cs
      else if c = CHR ''_'' \<and> cs \<noteq> [] \<and> is_digit (hd cs) then parse_digits acc cs
      else None)"

definition parse_unsigned :: "string \<Rightarrow> nat option" where
  "parse_unsigned body =
     (if body \<noteq> [] \<and> is_digit (hd body) then parse_digits 0 body else None)"

definition int_of_string :: "string \<Rightarrow> int option" where
  "int_of_string s =
     (case py_strip s of
        [] \<Rightarrow> None
      | c # cs \<Rightarrow>
          if c = CHR ''-'' then map_option (\<lambda>n. - int n) (parse_unsigned cs)
          else if c = CHR ''+'' then map_option int (parse_unsigned cs)
          else map_option int (parse_unsigned (c # cs)))"

fun py_int :: "pyval \<Rightarrow> exn + int" where
  "py_int PNone = Inl TypeError"
| "py_int (PInt i) = Inr i"
| "py_int (PStr s) = (case int_of_string s of None \<Rightarrow> Inl ValueError | Some i \<Rightarrow> Inr i)"

section \<open>Shared helpers of \<^verbatim>\<open>seller.py\<close>\<close>

subsection \<open>\<^verbatim>\<open>price_conversion\<close>\<close>

text \<open>
  \<^verbatim>\<open>re.sub("[^0-9]", "", price.split(".")[0])\<close>. \<open>py_split\<close> is \<^verbatim>\<open>str.split\<close> with a
  one-character separator; \<open>re_sub_non_digits\<close> deletes every match of \<^verbatim>\<open>[^0-9]\<close>.
  A value that is not a string has no \<^verbatim>\<open>split\<close> and raises \<^verbatim>\<open>AttributeError\<close>.
\<close>

fun py_split :: "char \<Rightarrow> string \<Rightarrow> string list" where
  "py_split sep [] = [[]]"
| "py_split sep (c # cs) =
     (if c = sep then [] # py_split sep cs
      else (case py_split sep cs of [] \<Rightarrow> [[c]] | x # xs \<Rightarrow> (c # x) # xs))"

definition re_sub_non_digits :: "string \<Rightarrow> string" where
  "re_sub_non_digits s = filter is_digit s"

fun price_conversion :: "pyval \<Rightarrow> exn + string" where
  "price_conversion (PStr price) =
     (case py_split (CHR ''.'') price of
        [] \<Rightarrow> Inl IndexError
      | x # _ \<Rightarrow> Inr (re_sub_non_digits x))"
| "price_conversion _ = Inl AttributeError"

subsection \<open>\<^verbatim>\<open>divide\<close>\<close>

text \<open>
  \<^verbatim>\<open>for i in range(0, len(lst), n): yield lst[i : i + n]\<close>. \<open>py_range\<close> is
  \<^verbatim>\<open>range(start, stop, step)\<close> (a zero step raises \<^verbatim>\<open>ValueError\<close>), \<open>py_slice\<close> is
  \<^verbatim>\<open>lst[i:j]\<close> with Python's treatment of negative and oversized bounds. The model
  of \<open>divide\<close> is the list of everything the generator yields.
\<close>

definition py_range :: "int \<Rightarrow> int \<Rightarrow> int \<Rightarrow> exn + int list" where
  "py_range start stop step =
     (if step = 0 then Inl ValueError
      else if step > 0 then
        Inr (if start < stop
             then map (\<lambda>k. start + int k * step) [0 ..< nat ((stop - start - 1) div step + 1)]
             else [])
      else
        Inr (if stop < start
             then map (\<lambda>k. start + int k * step) [0 ..< nat ((start - stop - 1) div (- step) + 1)]
             else []))"

definition slice_bound :: "nat \<Rightarrow> int \<Rightarrow> nat" where
  "slice_bound len i = (if i < 0 then nat (max (i + int len) 0) else min (nat i) len)"

definition py_slice :: "'a list \<Rightarrow> int \<Rightarrow> int \<Rightarrow> 'a list" where
  "py_slice lst i j =
     (let lo = slice_bound (length lst) i; hi = slice_bound (length lst) j
      in take (hi - lo) (drop lo lst))"

definition divide :: "'a list \<Rightarrow> int \<Rightarrow> exn + 'a list list" where
  "divide lst n =
     (case py_range 0 (int (length lst)) n of
        Inl e \<Rightarrow> Inl e
      | Inr is \<Rightarrow> Inr (map (\<lambda>i. py_slice lst i (i + n)) is))"

section \<open>The reconciler\<close>

text \<open>
  An inventory row, as \<^verbatim>\<open>download_stock\<close> returns it. The fields stand for the
  spreadsheet columns the code reads: \<open>Kod\<close> is the product code, \<open>Kolichestvo\<close> the
  quantity and \<open>Tsena\<close> the price (the source's keys are the Russian words).
\<close>

record watch =
  Kod :: pyval
  Kolichestvo :: pyval
  Tsena :: pyval

subsection \<open>Ozon: \<^verbatim>\<open>seller.create_stocks\<close> and \<^verbatim>\<open>seller.create_prices\<close>\<close>

record seller_stock =
  offer_id :: string
  stock :: int

record seller_price =
  auto_action_enabled :: string
  currency_code :: string
  price_offer_id :: string
  old_price :: string
  price :: string

text \<open>
  The first loop of \<^verbatim>\<open>create_stocks\<close>. It appends to \<open>stocks\<close> and removes from
  \<open>offer_ids\<close> (\<^verbatim>\<open>list.remove\<close> deletes the first occurrence), so both are threaded
  through and returned: the caller's list is the second component of the result.
\<close>

fun seller_stocks_loop ::
  "watch list \<Rightarrow> string list \<Rightarrow> seller_stock list \<Rightarrow> exn + (seller_stock list \<times> string list)"
where
  "seller_stocks_loop [] offer_ids stocks = Inr (stocks, offer_ids)"
| "seller_stocks_loop (watch # rest) offer_ids stocks =
     (if py_str (Kod watch) \<in> set offer_ids then
        (case (let count = py_str (Kolichestvo watch)
               in if count = ''>10'' then Inr 100
                  else if count = ''1'' then Inr 0
                  else py_int (Kolichestvo watch)) of
           Inl e \<Rightarrow> Inl e
         | Inr stock' \<Rightarrow>
             seller_stocks_loop rest (remove1 (py_str (Kod watch)) offer_ids)
               (stocks @ [\<lparr>offer_id = py_str (Kod watch), stock = stock'\<rparr>]))
      else seller_stocks_loop rest offer_ids stocks)"

definition seller_create_stocks ::
  "watch list \<Rightarrow> string list \<Rightarrow> exn + (seller_stock list \<times> string list)"
where
  "seller_create_stocks watch_remnants offer_ids =
     (case seller_stocks_loop watch_remnants offer_ids [] of
        Inl e \<Rightarrow> Inl e
      | Inr (stocks, offer_ids') \<Rightarrow>
          Inr (stocks @ map (\<lambda>i. \<lparr>offer_id = i, stock = 0\<rparr>) offer_ids', offer_ids'))"

fun seller_prices_loop ::
  "watch list \<Rightarrow> string list \<Rightarrow> seller_price list \<Rightarrow> exn + seller_price list"
where
  "seller_prices_loop [] offer_ids prices = Inr prices"
| "seller_prices_loop (watch # rest) offer_ids prices =
     (if py_str (Kod watch) \<in> set offer_ids then
        (case price_conversion (Tsena watch) of
           Inl e \<Rightarrow> Inl e
         | Inr p \<Rightarrow>
             seller_prices_loop rest offer_ids
               (prices @ [\<lparr>auto_action_enabled = ''UNKNOWN'', currency_code = ''RUB'',
                           price_offer_id = py_str (Kod watch), old_price = ''0'',
                           price = p\<rparr>]))
      else seller_prices_loop rest offer_ids prices)"

definition seller_create_prices :: "watch list \<Rightarrow> string list \<Rightarrow> exn + seller_price list" where
  "seller_create_prices watch_remnants offer_ids = seller_prices_loop watch_remnants offer_ids []"

subsection \<open>Yandex Market: \<^verbatim>\<open>market.create_stocks\<close> and \<^verbatim>\<open>market.create_prices\<close>\<close>

record stock_item =
  item_count :: int
  item_type :: string
  updatedAt :: string

record market_stock =
  sku :: string
  warehouseId :: string
  items :: "stock_item list"

record price_value =
  pv_value :: int
  currencyId :: string

record market_price =
  mp_id :: string
  mp_price :: price_value

text \<open>
  \<open>date\<close> is the clock reading \<^verbatim>\<open>create_stocks\<close> takes once, before its loops; it is
  an argument of the model.
\<close>

fun market_stocks_loop ::
  "string \<Rightarrow> string \<Rightarrow> watch list \<Rightarrow> string list \<Rightarrow> market_stock list
     \<Rightarrow> exn + (market_stock list \<times> string list)"
where
  "market_stocks_loop warehouse_id date [] offer_ids stocks = Inr (stocks, offer_ids)"
| "market_stocks_loop warehouse_id date (watch # rest) offer_ids stocks =
     (if py_str (Kod watch) \<in> set offer_ids then
        (case (let count = py_str (Kolichestvo watch)
               in if count = ''>10'' then Inr 100
                  else if count = ''1'' then Inr 0
                  else py_int (Kolichestvo watch)) of
           Inl e \<Rightarrow> Inl e
         | Inr stock' \<Rightarrow>
             market_stocks_loop warehouse_id date rest (remove1 (py_str (Kod watch)) offer_ids)
               (stocks @ [\<lparr>sku = py_str (Kod watch), warehouseId = warehouse_id,
                           items = [\<lparr>item_count = stock', item_type = ''FIT'',
                                     updatedAt = date\<rparr>]\<rparr>]))
      else market_stocks_loop warehouse_id date rest offer_ids stocks)"

definition market_create_stocks ::
  "string \<Rightarrow> watch list \<Rightarrow> string list \<Rightarrow> string
     \<Rightarrow> exn + (market_stock list \<times> string list)"
where
  "market_create_stocks date watch_remnants offer_ids warehouse_id =
     (case market_stocks_loop warehouse_id date watch_remnants offer_ids [] of
        Inl e \<Rightarrow> Inl e
      | Inr (stocks, offer_ids') \<Rightarrow>
          Inr (stocks @
               map (\<lambda>i. \<lparr>sku = i, warehouseId = warehouse_id,
                         items = [\<lparr>item_count = 0, item_type = ''FIT'', updatedAt = date\<rparr>]\<rparr>)
                 offer_ids',
               offer_ids'))"

fun market_prices_loop ::
  "watch list \<Rightarrow> string list \<Rightarrow> market_price list \<Rightarrow> exn + market_price list"
where
  "market_prices_loop [] offer_ids prices = Inr prices"
| "market_prices_loop (watch # rest) offer_ids prices =
     (if py_str (Kod watch) \<in> set offer_ids then
        (case price_conversion (Tsena watch) of
           Inl e \<Rightarrow> Inl e
         | Inr p \<Rightarrow>
             (case py_int (PStr p) of
                Inl e \<Rightarrow> Inl e
              | Inr v \<Rightarrow>
                  market_prices_loop rest offer_ids
                    (prices @ [\<lparr>mp_id = py_str (Kod watch),
                                mp_price = \<lparr>pv_value = v, currencyId = ''RUR''\<rparr>\<rparr>])))
      else market_prices_loop rest offer_ids prices)"

definition market_create_prices :: "watch list \<Rightarrow> string list \<Rightarrow> exn + market_price list" where
  "market_create_prices watch_remnants offer_ids = market_prices_loop watch_remnants offer_ids []"

section \<open>Network, clock and output\<close>

text \<open>
  A run prints diagnostics and performs network calls. The model records the calls in
  order (the trace) and takes the answers from an oracle: a record of functions that
  give the response to a call from the number of calls made before it and the call's
  arguments. An upload answers \<open>None\<close> on success and \<open>Some e\<close> when the request raises
  \<open>e\<close>. Credentials are fixed for a run and left out.
\<close>

datatype diag = TimeoutMsg | ConnectionMsg exn | OtherMsg exn

text \<open>
  The three \<^verbatim>\<open>except\<close> clauses of both \<^verbatim>\<open>main\<close> functions, in the order they are
  tried: \<^verbatim>\<open>ReadTimeout\<close>, then \<^verbatim>\<open>ConnectionError\<close> (with its subclasses), then
  \<^verbatim>\<open>Exception\<close>. Each prints one line.
\<close>

definition handler :: "exn \<Rightarrow> diag" where
  "handler e =
     (if e = ReadTimeout then TimeoutMsg
      else if e = ConnectionError \<or> e = ConnectTimeout then ConnectionMsg e
      else OtherMsg e)"

text \<open>
  What a run of \<^verbatim>\<open>main\<close> leaves behind: the calls made, the lines printed, and the
  exception that left \<^verbatim>\<open>main\<close> uncaught, if any (then the interpreter prints a
  traceback and exits with a non-zero code).
\<close>

record 'c run =
  calls :: "'c list"
  printed :: "diag list"
  uncaught :: "exn option"

definition finish :: "(exn + unit) \<times> 'c list \<Rightarrow> 'c run" where
  "finish r =
     (case r of
        (Inl e, t) \<Rightarrow> \<lparr>calls = t, printed = [handler e], uncaught = None\<rparr>
      | (Inr u, t) \<Rightarrow> \<lparr>calls = t, printed = [], uncaught = None\<rparr>)"

section \<open>Ozon: \<^verbatim>\<open>seller.py\<close>\<close>

record product =
  p_offer_id :: string
  product_id :: int

record seller_page =
  page_items :: "product list"
  page_last_id :: string
  page_total :: int

datatype seller_call =
    SList string
  | SDownload
  | SUpdateStocks "seller_stock list"
  | SUpdatePrice "seller_price list"

record seller_net =
  s_list_response :: "nat \<Rightarrow> string \<Rightarrow> exn + seller_page"
  s_download_response :: "nat \<Rightarrow> exn + watch list"
  s_stocks_response :: "nat \<Rightarrow> seller_stock list \<Rightarrow> exn option"
  s_price_response :: "nat \<Rightarrow> seller_price list \<Rightarrow> exn option"

text \<open>
  The \<^verbatim>\<open>while True\<close> loop of \<^verbatim>\<open>seller.get_offer_ids\<close>: fetch a page, extend the list,
  stop when the reported total equals the number of products collected. The loop need
  not end, so it is a partial function: \<open>None\<close> is a run that never returns.
\<close>

partial_function (option) seller_list_loop ::
  "seller_net \<Rightarrow> string \<Rightarrow> product list \<Rightarrow> seller_call list
     \<Rightarrow> ((exn + product list) \<times> seller_call list) option"
where
  "seller_list_loop net last_id product_list t =
     (case s_list_response net (length t) last_id of
        Inl e \<Rightarrow> Some (Inl e, t @ [SList last_id])
      | Inr some_prod \<Rightarrow>
          if page_total some_prod = int (length (product_list @ page_items some_prod))
          then Some (Inr (product_list @ page_items some_prod), t @ [SList last_id])
          else seller_list_loop net (page_last_id some_prod)
                 (product_list @ page_items some_prod) (t @ [SList last_id]))"

declare seller_list_loop.simps [code]

definition seller_get_offer_ids ::
  "seller_net \<Rightarrow> seller_call list \<Rightarrow> ((exn + string list) \<times> seller_call list) option"
where
  "seller_get_offer_ids net t =
     (case seller_list_loop net '''' [] t of
        None \<Rightarrow> None
      | Some (Inl e, t') \<Rightarrow> Some (Inl e, t')
      | Some (Inr product_list, t') \<Rightarrow> Some (Inr (map p_offer_id product_list), t'))"

text \<open>
  \<^verbatim>\<open>for some_stock in list(divide(stocks, 100)): update_stocks(some_stock, ...)\<close> and the
  same loop for prices: one call per chunk, in order; the first call that raises ends
  the loop.
\<close>

fun seller_update_stocks_all ::
  "seller_net \<Rightarrow> seller_stock list list \<Rightarrow> seller_call list \<Rightarrow> (exn + unit) \<times> seller_call list"
where
  "seller_update_stocks_all net [] t = (Inr (), t)"
| "seller_update_stocks_all net (some_stock # rest) t =
     (case s_stocks_response net (length t) some_stock of
        Some e \<Rightarrow> (Inl e, t @ [SUpdateStocks some_stock])
      | None \<Rightarrow> seller_update_stocks_all net rest (t @ [SUpdateStocks some_stock]))"

fun seller_update_price_all ::
  "seller_net \<Rightarrow> seller_price list list \<Rightarrow> seller_call list \<Rightarrow> (exn + unit) \<times> seller_call list"
where
  "seller_update_price_all net [] t = (Inr (), t)"
| "seller_update_price_all net (some_price # rest) t =
     (case s_price_response net (length t) some_price of
        Some e \<Rightarrow> (Inl e, t @ [SUpdatePrice some_price])
      | None \<Rightarrow> seller_update_price_all net rest (t @ [SUpdatePrice some_price]))"

text \<open>
  The \<^verbatim>\<open>try\<close> block of \<^verbatim>\<open>seller.main\<close>. \<^verbatim>\<open>create_prices\<close> receives the very list object
  that \<^verbatim>\<open>create_stocks\<close> has shortened, hence \<open>offer_ids'\<close>.
\<close>

definition seller_try_block ::
  "seller_net \<Rightarrow> ((exn + unit) \<times> seller_call list) option"
where
  "seller_try_block net =
     (case seller_get_offer_ids net [] of
        None \<Rightarrow> None
      | Some (Inl e, t) \<Rightarrow> Some (Inl e, t)
      | Some (Inr offer_ids, t) \<Rightarrow>
          (case s_download_response net (length t) of
             Inl e \<Rightarrow> Some (Inl e, t @ [SDownload])
           | Inr watch_remnants \<Rightarrow>
               (case seller_create_stocks watch_remnants offer_ids of
                  Inl e \<Rightarrow> Some (Inl e, t @ [SDownload])
                | Inr (stocks, offer_ids') \<Rightarrow>
                    (case divide stocks 100 of
                       Inl e \<Rightarrow> Some (Inl e, t @ [SDownload])
                     | Inr stock_chunks \<Rightarrow>
                         (case seller_update_stocks_all net stock_chunks (t @ [SDownload]) of
                            (Inl e, t') \<Rightarrow> Some (Inl e, t')
                          | (Inr u, t') \<Rightarrow>
                              (case seller_create_prices watch_remnants offer_ids' of
                                 Inl e \<Rightarrow> Some (Inl e, t')
                               | Inr prices \<Rightarrow>
                                   (case divide prices 900 of
                                      Inl e \<Rightarrow> Some (Inl e, t')
                                    | Inr price_chunks \<Rightarrow>
                                        Some (seller_update_price_all net price_chunks t'))))))))"

definition seller_main :: "seller_net \<Rightarrow> seller_call run option" where
  "seller_main net = map_option finish (seller_try_block net)"

section \<open>Yandex Market: \<^verbatim>\<open>market.py\<close>\<close>

record offer =
  shopSku :: string

record mapping_entry =
  entry_offer :: offer

record paging =
  nextPageToken :: "string option"

record market_page =
  page_paging :: paging
  offerMappingEntries :: "mapping_entry list"

datatype market_call =
    MDownload
  | MList string string
  | MUpdateStocks string "market_stock list"
  | MUpdatePrice string "market_price list"

record market_net =
  m_download_response :: "nat \<Rightarrow> exn + watch list"
  m_list_response :: "nat \<Rightarrow> string \<Rightarrow> string \<Rightarrow> exn + market_page"
  m_stocks_response :: "nat \<Rightarrow> string \<Rightarrow> market_stock list \<Rightarrow> exn option"
  m_price_response :: "nat \<Rightarrow> string \<Rightarrow> market_price list \<Rightarrow> exn option"
  m_clock :: "nat \<Rightarrow> string"

record market_config =
  campaign_fbs_id :: string
  campaign_dbs_id :: string
  warehouse_fbs_id :: string
  warehouse_dbs_id :: string

text \<open>
  The loop of \<^verbatim>\<open>market.get_offer_ids\<close>: it stops when the next-page token is falsy,
  that is absent or empty.
\<close>

partial_function (option) market_list_loop ::
  "market_net \<Rightarrow> string \<Rightarrow> string \<Rightarrow> mapping_entry list \<Rightarrow> market_call list
     \<Rightarrow> ((exn + mapping_entry list) \<times> market_call list) option"
where
  "market_list_loop net campaign_id page product_list t =
     (case m_list_response net (length t) campaign_id page of
        Inl e \<Rightarrow> Some (Inl e, t @ [MList campaign_id page])
      | Inr some_prod \<Rightarrow>
          (case nextPageToken (page_paging some_prod) of
             None \<Rightarrow>
               Some (Inr (product_list @ offerMappingEntries some_prod),
                     t @ [MList campaign_id page])
           | Some page' \<Rightarrow>
               if page' = ''''
               then Some (Inr (product_list @ offerMappingEntries some_prod),
                          t @ [MList campaign_id page])
               else market_list_loop net campaign_id page'
                      (product_list @ offerMappingEntries some_prod)
                      (t @ [MList campaign_id page])))"

declare market_list_loop.simps [code]

definition market_get_offer_ids ::
  "market_net \<Rightarrow> string \<Rightarrow> market_call list
     \<Rightarrow> ((exn + string list) \<times> market_call list) option"
where
  "market_get_offer_ids net campaign_id t =
     (case market_list_loop net campaign_id '''' [] t of
        None \<Rightarrow> None
      | Some (Inl e, t') \<Rightarrow> Some (Inl e, t')
      | Some (Inr product_list, t') \<Rightarrow>
          Some (Inr (map (\<lambda>product. shopSku (entry_offer product)) product_list), t'))"

fun market_update_stocks_all ::
  "market_net \<Rightarrow> string \<Rightarrow> market_stock list list \<Rightarrow> market_call list
     \<Rightarrow> (exn + unit) \<times> market_call list"
where
  "market_update_stocks_all net campaign_id [] t = (Inr (), t)"
| "market_update_stocks_all net campaign_id (some_stock # rest) t =
     (case m_stocks_response net (length t) campaign_id some_stock of
        Some e \<Rightarrow> (Inl e, t @ [MUpdateStocks campaign_id some_stock])
      | None \<Rightarrow>
          market_update_stocks_all net campaign_id rest
            (t @ [MUpdateStocks campaign_id some_stock]))"

fun market_update_price_all ::
  "market_net \<Rightarrow> string \<Rightarrow> market_price list list \<Rightarrow> market_call list
     \<Rightarrow> (exn + unit) \<times> market_call list"
where
  "market_update_price_all net campaign_id [] t = (Inr (), t)"
| "market_update_price_all net campaign_id (some_prices # rest) t =
     (case m_price_response net (length t) campaign_id some_prices of
        Some e \<Rightarrow> (Inl e, t @ [MUpdatePrice campaign_id some_prices])
      | None \<Rightarrow>
          market_update_price_all net campaign_id rest
            (t @ [MUpdatePrice campaign_id some_prices]))"

text \<open>
  The body of \<^verbatim>\<open>market.upload_prices\<close>: enumerate again, build the prices, upload them
  in chunks of 500. This is what would run if the coroutine were driven.
\<close>

definition market_upload_prices ::
  "market_net \<Rightarrow> watch list \<Rightarrow> string \<Rightarrow> market_call list
     \<Rightarrow> ((exn + market_price list) \<times> market_call list) option"
where
  "market_upload_prices net watch_remnants campaign_id t =
     (case market_get_offer_ids net campaign_id t of
        None \<Rightarrow> None
      | Some (Inl e, t') \<Rightarrow> Some (Inl e, t')
      | Some (Inr offer_ids, t') \<Rightarrow>
          (case market_create_prices watch_remnants offer_ids of
             Inl e \<Rightarrow> Some (Inl e, t')
           | Inr prices \<Rightarrow>
               (case divide prices 500 of
                  Inl e \<Rightarrow> Some (Inl e, t')
                | Inr chunks \<Rightarrow>
                    (case market_update_price_all net campaign_id chunks t' of
                       (Inl e, t'') \<Rightarrow> Some (Inl e, t'')
                     | (Inr u, t'') \<Rightarrow> Some (Inr prices, t'')))))"

text \<open>
  \<^verbatim>\<open>upload_prices\<close> is declared \<^verbatim>\<open>async def\<close>. Calling it builds a coroutine object and
  runs none of its body; \<^verbatim>\<open>main\<close> neither awaits the object nor hands it to an event
  loop, so the body never runs. \<open>call_async body rest\<close> is such a call followed by the
  rest of the caller: whatever the body would do, none of it happens, nothing is raised,
  and the caller goes on.
\<close>

definition call_async :: "'a \<Rightarrow> 'b \<Rightarrow> 'b" where
  "call_async body rest = rest"

text \<open>
  \<^verbatim>\<open>market.main\<close> runs the same steps for FBS and then for DBS, with the campaign and
  warehouse identifiers of each: enumerate, \<^verbatim>\<open>create_stocks\<close>, upload the stocks in
  chunks of 2000, call \<^verbatim>\<open>upload_prices\<close>. \<open>market_channel\<close> is that sequence of steps.
\<close>

definition market_channel ::
  "market_net \<Rightarrow> string \<Rightarrow> string \<Rightarrow> watch list \<Rightarrow> market_call list
     \<Rightarrow> ((exn + unit) \<times> market_call list) option"
where
  "market_channel net campaign_id warehouse_id watch_remnants t =
     (case market_get_offer_ids net campaign_id t of
        None \<Rightarrow> None
      | Some (Inl e, t1) \<Rightarrow> Some (Inl e, t1)
      | Some (Inr offer_ids, t1) \<Rightarrow>
          (case market_create_stocks (m_clock net (length t1)) watch_remnants offer_ids
                  warehouse_id of
             Inl e \<Rightarrow> Some (Inl e, t1)
           | Inr (stocks, offer_ids') \<Rightarrow>
               (case divide stocks 2000 of
                  Inl e \<Rightarrow> Some (Inl e, t1)
                | Inr chunks \<Rightarrow>
                    (case market_update_stocks_all net campaign_id chunks t1 of
                       (Inl e, t2) \<Rightarrow> Some (Inl e, t2)
                     | (Inr u, t2) \<Rightarrow>
                         call_async (market_upload_prices net watch_remnants campaign_id t2)
                           (Some (Inr (), t2))))))"

text \<open>
  The \<^verbatim>\<open>try\<close> block of \<^verbatim>\<open>market.main\<close>: FBS, then DBS; an exception in the FBS steps
  leaves the block.
\<close>

definition market_try_block ::
  "market_net \<Rightarrow> market_config \<Rightarrow> watch list \<Rightarrow> market_call list
     \<Rightarrow> ((exn + unit) \<times> market_call list) option"
where
  "market_try_block net cfg watch_remnants t =
     (case market_channel net (campaign_fbs_id cfg) (warehouse_fbs_id cfg) watch_remnants t of
        None \<Rightarrow> None
      | Some (Inl e, t') \<Rightarrow> Some (Inl e, t')
      | Some (Inr u, t') \<Rightarrow>
          market_channel net (campaign_dbs_id cfg) (warehouse_dbs_id cfg) watch_remnants t')"

text \<open>
  \<^verbatim>\<open>market.main\<close>: \<^verbatim>\<open>download_stock()\<close> is called before the \<^verbatim>\<open>try\<close> statement, so an
  exception it raises is not handled.
\<close>

definition market_main :: "market_net \<Rightarrow> market_config \<Rightarrow> market_call run option" where
  "market_main net cfg =
     (case m_download_response net 0 of
        Inl e \<Rightarrow> Some \<lparr>calls = [MDownload], printed = [], uncaught = Some e\<rparr>
      | Inr watch_remnants \<Rightarrow>
          map_option finish (market_try_block net cfg watch_remnants [MDownload]))"

section \<open>Auxiliary definitions for the proofs\<close>

text \<open>
  \<open>chunks m lst\<close> names the slices \<open>divide\<close> yields for a positive chunk size.
  \<open>reconcile\<close> is the first loop of \<open>create_stocks\<close> without the platform's entry
  format: it returns the matched codes with their quantities and the identifiers left.
  Both are related to the functions above by lemmas, not assumed.
\<close>

definition chunks :: "nat \<Rightarrow> 'a list \<Rightarrow> 'a list list" where
  "chunks m lst = map (\<lambda>k. take m (drop (k * m) lst)) [0 ..< (length lst + m - 1) div m]"

definition code_of :: "watch \<Rightarrow> string" where
  "code_of w = py_str (Kod w)"

definition bucket :: "pyval \<Rightarrow> exn + int" where
  "bucket q = (if py_str q = ''>10'' then Inr 100 else if py_str q = ''1'' then Inr 0 else py_int q)"

fun reconcile :: "watch list \<Rightarrow> string list \<Rightarrow> exn + ((string \<times> int) list \<times> string list)" where
  "reconcile [] ids = Inr ([], ids)"
| "reconcile (w # ws) ids =
     (if code_of w \<in> set ids then
        (case bucket (Kolichestvo w) of
           Inl e \<Rightarrow> Inl e
         | Inr q \<Rightarrow>
             (case reconcile ws (remove1 (code_of w) ids) of
                Inl e \<Rightarrow> Inl e
              | Inr (pl, r) \<Rightarrow> Inr ((code_of w, q) # pl, r)))
      else reconcile ws ids)"

definition seller_entry :: "string \<times> int \<Rightarrow> seller_stock" where
  "seller_entry p = \<lparr>offer_id = fst p, stock = snd p\<rparr>"

definition market_entry :: "string \<Rightarrow> string \<Rightarrow> string \<times> int \<Rightarrow> market_stock" where
  "market_entry wh date p =
     \<lparr>sku = fst p, warehouseId = wh,
      items = [\<lparr>item_count = snd p, item_type = ''FIT'', updatedAt = date\<rparr>]\<rparr>"

text \<open>
  The inventory of the end-to-end scenario of the specification. The currency suffix of
  the price is the Cyrillic letter er (UTF-8 bytes D1 80) and a full stop.
\<close>

definition e2e_inventory :: "watch list" where
  "e2e_inventory =
     [\<lparr>Kod = PStr ''A1'', Kolichestvo = PStr ''>10'',
       Tsena = PStr (''500.00 '' @ [CHR 0xD1, CHR 0x80] @ ''.'')\<rparr>,
      \<lparr>Kod = PStr ''A2'', Kolichestvo = PStr ''1'',
       Tsena = PStr (''100.00 '' @ [CHR 0xD1, CHR 0x80] @ ''.'')\<rparr>]"


text \<open>
  Paged sources of three pages with 200, 200 and 50 identifiers, one per platform. The
  Ozon source reports the total 450 on every page; the Yandex Market source gives no
  next-page token on the third page. A fourth request would be refused.
\<close>

definition seller_three_pages :: seller_net where
  "seller_three_pages =
     \<lparr>s_list_response = (\<lambda>n cursor.
          if n = 0 \<and> cursor = '''' then
            Inr \<lparr>page_items = replicate 200 \<lparr>p_offer_id = ''a'', product_id = 1\<rparr>,
                 page_last_id = ''p1'', page_total = 450\<rparr>
          else if n = 1 \<and> cursor = ''p1'' then
            Inr \<lparr>page_items = replicate 200 \<lparr>p_offer_id = ''b'', product_id = 2\<rparr>,
                 page_last_id = ''p2'', page_total = 450\<rparr>
          else if n = 2 \<and> cursor = ''p2'' then
            Inr \<lparr>page_items = replicate 50 \<lparr>p_offer_id = ''c'', product_id = 3\<rparr>,
                 page_last_id = '''', page_total = 450\<rparr>
          else Inl HTTPError),
       s_download_response = (\<lambda>n. Inl HTTPError),
       s_stocks_response = (\<lambda>n chunk. None),
       s_price_response = (\<lambda>n chunk. None)\<rparr>"

definition market_three_pages :: market_net where
  "market_three_pages =
     \<lparr>m_download_response = (\<lambda>n. Inl HTTPError),
       m_list_response = (\<lambda>n campaign cursor.
          if n = 0 \<and> cursor = '''' then
            Inr \<lparr>page_paging = \<lparr>nextPageToken = Some ''p1''\<rparr>,
                 offerMappingEntries = replicate 200 \<lparr>entry_offer = \<lparr>shopSku = ''a''\<rparr>\<rparr>\<rparr>
          else if n = 1 \<and> cursor = ''p1'' then
            Inr \<lparr>page_paging = \<lparr>nextPageToken = Some ''p2''\<rparr>,
                 offerMappingEntries = replicate 200 \<lparr>entry_offer = \<lparr>shopSku = ''b''\<rparr>\<rparr>\<rparr>
          else if n = 2 \<and> cursor = ''p2'' then
            Inr \<lparr>page_paging = \<lparr>nextPageToken = None\<rparr>,
                 offerMappingEntries = replicate 50 \<lparr>entry_offer = \<lparr>shopSku = ''c''\<rparr>\<rparr>\<rparr>
          else Inl HTTPError),
       m_stocks_response = (\<lambda>n campaign chunk. None),
       m_price_response = (\<lambda>n campaign chunk. None),
       m_clock = (\<lambda>n. ''2024-01-01T00:00:00Z'')\<rparr>"

text \<open>
  Oracles for runs of the two \<^verbatim>\<open>main\<close> functions. On Ozon the catalogue is one page
  with the identifiers \<open>A1\<close>, \<open>A2\<close>, \<open>A3\<close> and every request succeeds. On Yandex
  Market the catalogue of either campaign is one page with \<open>A1\<close> and \<open>A3\<close>; the download
  raises \<open>download_error\<close> when one is given, and the FBS catalogue request raises
  \<open>fbs_error\<close> when one is given. The inventory is that of the end-to-end scenario.
\<close>

definition e2e_seller_net :: seller_net where
  "e2e_seller_net =
     \<lparr>s_list_response = (\<lambda>n cursor.
          Inr \<lparr>page_items = [\<lparr>p_offer_id = ''A1'', product_id = 1\<rparr>,
                              \<lparr>p_offer_id = ''A2'', product_id = 2\<rparr>,
                              \<lparr>p_offer_id = ''A3'', product_id = 3\<rparr>],
               page_last_id = ''3'', page_total = 3\<rparr>),
       s_download_response = (\<lambda>n. Inr e2e_inventory),
       s_stocks_response = (\<lambda>n chunk. None),
       s_price_response = (\<lambda>n chunk. None)\<rparr>"

definition example_market_net :: "exn option \<Rightarrow> exn option \<Rightarrow> market_net" where
  "example_market_net download_error fbs_error =
     \<lparr>m_download_response = (\<lambda>n.
          case download_error of Some e \<Rightarrow> Inl e | None \<Rightarrow> Inr e2e_inventory),
       m_list_response = (\<lambda>n campaign cursor.
          case (if campaign = ''fbs'' then fbs_error else None) of
            Some e \<Rightarrow> Inl e
          | None \<Rightarrow>
              Inr \<lparr>page_paging = \<lparr>nextPageToken = None\<rparr>,
                   offerMappingEntries = [\<lparr>entry_offer = \<lparr>shopSku = ''A1''\<rparr>\<rparr>,
                                          \<lparr>entry_offer = \<lparr>shopSku = ''A3''\<rparr>\<rparr>]\<rparr>),
       m_stocks_response = (\<lambda>n campaign chunk. None),
       m_price_response = (\<lambda>n campaign chunk. None),
       m_clock = (\<lambda>n. ''2024-01-01T00:00:00Z'')\<rparr>"

definition example_market_config :: market_config where
  "example_market_config =
     \<lparr>campaign_fbs_id = ''fbs'', campaign_dbs_id = ''dbs'',
      warehouse_fbs_id = ''w1'', warehouse_dbs_id = ''w2''\<rparr>"

text \<open>
  The campaign a call is addressed to, and whether a call is a price update.
\<close>

fun campaign_of :: "market_call \<Rightarrow> string option" where
  "campaign_of MDownload = None"
| "campaign_of (MList c p) = Some c"
| "campaign_of (MUpdateStocks c s) = Some c"
| "campaign_of (MUpdatePrice c p) = Some c"

fun is_price_call :: "market_call \<Rightarrow> bool" where
  "is_price_call (MUpdatePrice c p) = True"
| "is_price_call _ = False"

section \<open>Batching\<close>

lemma range_pos: "0 < m \<Longrightarrow> py_range 0 (int len) (int m) = Inr (map (\<lambda>k. int (k * m)) [0 ..< (len + m - 1) div m])"
proof -
  assume m: "0 < m"
  have c: "nat ((int len - 0 - 1) div int m + 1) = (len + m - 1) div m" if "0 < len"
  proof -
    have "(int len - 1) div int m + 1 = int ((len - 1) div m + 1)"
      using that by (simp add: zdiv_int of_nat_diff)
    moreover have "(len - 1) div m + 1 = (len + m - 1) div m"
      using that m by (metis Nat.add_diff_assoc2 One_nat_def Suc_leI add.commute div_add_self1 less_numeral_extra(3))
    ultimately show ?thesis by simp
  qed
  show ?thesis
  proof (cases "0 < len")
    case True
    then show ?thesis using m c by (simp add: py_range_def)
  next
    case False
    then show ?thesis using m by (simp add: py_range_def)
  qed
qed

lemma slice_nat: "py_slice lst (int a) (int a + int m) = take m (drop a lst)"
proof -
  have b1: "slice_bound (length lst) (int a) = min a (length lst)"
    by (simp add: slice_bound_def)
  have b2: "slice_bound (length lst) (int a + int m) = min (a + m) (length lst)"
    by (simp add: slice_bound_def nat_add_distrib)
  show ?thesis
    unfolding py_slice_def b1 b2 Let_def by (cases "a \<le> length lst") (simp_all add: min_def)
qed

lemma slice_chunk: "py_slice lst (int k * int m) (int k * int m + int m) = take m (drop (k * m) lst)"
  using slice_nat[of lst "k * m" m] by simp

lemma divide_pos: "0 < m \<Longrightarrow> divide lst (int m) = Inr (chunks m lst)"
  by (simp add: divide_def range_pos chunks_def slice_chunk comp_def)

lemma concat_chunks_take:
  "concat (map (\<lambda>k. take m (drop (k * m) lst)) [0 ..< c]) = take (c * m) lst"
proof (induction c)
  case 0
  show ?case by simp
next
  case (Suc c)
  have "take (Suc c * m) lst = take (c * m + m) lst" by (simp add: add.commute)
  also have "\<dots> = take (c * m) lst @ take m (drop (c * m) lst)" by (rule take_add)
  finally show ?case using Suc by simp
qed

lemma ceil_bounds:
  assumes "0 < (m::nat)"
  shows "len \<le> (len + m - 1) div m * m"
    and "0 < len \<Longrightarrow> ((len + m - 1) div m - 1) * m < len"
    and "0 < len \<Longrightarrow> 0 < (len + m - 1) div m"
proof -
  let ?c = "(len + m - 1) div m"
  have e: "?c * m + (len + m - 1) mod m = len + m - 1" by simp
  have r: "(len + m - 1) mod m < m" using assms by simp
  show "len \<le> ?c * m" using e r by linarith
  show p: "0 < ?c" if "0 < len"
    using that assms by (simp add: div_greater_zero_iff)
  show "(?c - 1) * m < len" if "0 < len"
  proof -
    have "(?c - 1) * m + m = ?c * m" using p[OF that]
      by (metis Suc_diff_1 One_nat_def mult_Suc add.commute)
    then show ?thesis using e that assms by linarith
  qed
qed

lemma concat_chunks: "0 < m \<Longrightarrow> concat (chunks m lst) = lst"
  using ceil_bounds(1)[of m "length lst"] by (simp add: chunks_def concat_chunks_take)

lemma length_chunks: "length (chunks m lst) = (length lst + m - 1) div m"
  by (simp add: chunks_def)

lemma nth_chunks: "k < length (chunks m lst) \<Longrightarrow> chunks m lst ! k = take m (drop (k * m) lst)"
  by (simp add: chunks_def)

lemma full_chunk:
  assumes "0 < m" "Suc k < length (chunks m lst)"
  shows "length (chunks m lst ! k) = m"
proof -
  let ?c = "(length lst + m - 1) div m"
  have k: "Suc k < ?c" using assms by (simp add: length_chunks)
  then have pos: "0 < length lst" using assms(1) by (cases "length lst") auto
  have "Suc k * m \<le> (?c - 1) * m" using k by (intro mult_le_mono1) simp
  also have "\<dots> < length lst" using ceil_bounds(2)[OF assms(1) pos] .
  finally have "k * m + m < length lst" by (simp add: add.commute)
  then show ?thesis using assms by (simp add: nth_chunks)
qed

lemma last_chunk:
  assumes "0 < m" "chunks m lst \<noteq> []"
  shows "0 < length (last (chunks m lst))"
    and "length (last (chunks m lst)) \<le> m"
    and "length (last (chunks m lst)) < m \<longleftrightarrow> \<not> m dvd length lst"
proof -
  let ?c = "(length lst + m - 1) div m"
  have c: "0 < ?c" using assms by (simp add: chunks_def)
  then have pos: "0 < length lst" using assms(1) by (cases "length lst") auto
  have l: "last (chunks m lst) = take m (drop ((?c - 1) * m) lst)"
    using c assms(2) by (simp add: last_conv_nth length_chunks nth_chunks)
  have lo: "(?c - 1) * m < length lst" using ceil_bounds(2)[OF assms(1) pos] .
  have hi: "length lst \<le> ?c * m" using ceil_bounds(1)[OF assms(1)] .
  have cm: "(?c - 1) * m + m = ?c * m" using c
    by (metis Suc_diff_1 One_nat_def mult_Suc add.commute)
  show "0 < length (last (chunks m lst))" using lo assms(1) by (simp add: l)
  show "length (last (chunks m lst)) \<le> m" by (simp add: l)
  have "length (last (chunks m lst)) < m \<longleftrightarrow> length lst < ?c * m"
    using lo cm by (simp add: l) linarith
  also have "\<dots> \<longleftrightarrow> \<not> m dvd length lst"
  proof
    assume lt: "length lst < ?c * m"
    show "\<not> m dvd length lst"
    proof
      assume "m dvd length lst"
      then obtain q where q: "length lst = m * q" by (auto simp: dvd_def)
      have "(?c - 1) * m < q * m" using lo q by (simp add: mult.commute)
      then have "?c - 1 < q" by simp
      moreover have "q * m < ?c * m" using lt q by (simp add: mult.commute)
      then have "q < ?c" by simp
      ultimately show False by linarith
    qed
  next
    assume nd: "\<not> m dvd length lst"
    have "length lst \<noteq> ?c * m" using nd by (metis dvd_triv_right)
    then show "length lst < ?c * m" using hi by linarith
  qed
  finally show "length (last (chunks m lst)) < m \<longleftrightarrow> \<not> m dvd length lst" .
qed

lemma ceil_count: "0 < m \<Longrightarrow> int ((len + m - 1) div m) = \<lceil>real len / real m\<rceil>"
proof -
  assume m: "0 < m"
  let ?c = "(len + m - 1) div m"
  have hi: "len \<le> ?c * m" using ceil_bounds(1)[OF m] .
  show ?thesis
  proof (cases "0 < len")
    case False then show ?thesis using m by simp
  next
    case True
    have lo: "(?c - 1) * m < len" using ceil_bounds(2)[OF m True] .
    have c: "0 < ?c" using ceil_bounds(3)[OF m True] .
    have "real len \<le> real ?c * real m" using hi by (metis of_nat_le_iff of_nat_mult)
    then have u: "real len / real m \<le> real ?c" using m by (simp add: pos_divide_le_eq)
    have "real ((?c - 1) * m) < real len" using lo by (simp only: of_nat_less_iff)
    then have "(real ?c - 1) * real m < real len" using c by (simp add: of_nat_diff)
    then have l: "real ?c - 1 < real len / real m" using m by (simp add: pos_less_divide_eq)
    show ?thesis using u l by (simp add: ceiling_eq_iff[symmetric] eq_sym_conv ceiling_unique)
  qed
qed

text \<open>
  C9. For every list and every positive chunk size \<open>n\<close>, \<open>divide\<close> yields
  \<open>\<lceil>length lst / n\<rceil>\<close> chunks; every chunk but the last has length \<open>n\<close>; the last one is
  not empty, has at most \<open>n\<close> elements and fewer exactly when \<open>n\<close> does not divide the
  length; the chunks concatenated in order are the list.
\<close>

theorem divide_batching:
  assumes "0 < n"
  shows "\<exists>cs. divide lst n = Inr cs
     \<and> int (length cs) = \<lceil>real (length lst) / real_of_int n\<rceil>
     \<and> (\<forall>k. Suc k < length cs \<longrightarrow> int (length (cs ! k)) = n)
     \<and> (cs \<noteq> [] \<longrightarrow> 0 < length (last cs) \<and> int (length (last cs)) \<le> n
           \<and> (int (length (last cs)) < n \<longleftrightarrow> \<not> n dvd int (length lst)))
     \<and> concat cs = lst"
proof -
  obtain m where m: "n = int m" "0 < m" using assms by (metis zero_less_imp_eq_int)
  have d: "divide lst n = Inr (chunks m lst)" using m divide_pos by simp
  have 1: "int (length (chunks m lst)) = \<lceil>real (length lst) / real_of_int n\<rceil>"
    using ceil_count[OF m(2)] m(1) by (simp add: length_chunks)
  have 2: "\<forall>k. Suc k < length (chunks m lst) \<longrightarrow> int (length (chunks m lst ! k)) = n"
    using full_chunk[OF m(2)] m(1) by auto
  have 3: "chunks m lst \<noteq> [] \<longrightarrow> 0 < length (last (chunks m lst)) \<and> int (length (last (chunks m lst))) \<le> n
           \<and> (int (length (last (chunks m lst))) < n \<longleftrightarrow> \<not> n dvd int (length lst))"
    using last_chunk[OF m(2), of lst] m(1) by (simp add: int_dvd_int_iff)
  have 4: "concat (chunks m lst) = lst" using concat_chunks[OF m(2)] .
  show ?thesis using d 1 2 3 4 by blast
qed

theorem divide_batching_witness:
  "(0::int) < 2 \<and> (\<exists>cs. divide [1, 2, 3, 4, 5 :: nat] 2 = Inr cs \<and> int (length cs) = 3
     \<and> concat cs = [1, 2, 3, 4, 5])"
proof -
  have h: "(0::int) < 2" by simp
  have c: "\<lceil>real (length [1, 2, 3, 4, 5 :: nat]) / real_of_int 2\<rceil> = 3" by simp
  from divide_batching[OF h, of "[1, 2, 3, 4, 5 :: nat]"] h show ?thesis
    unfolding c by blast
qed

section \<open>Price normalization\<close>

lemma py_split_hd:
  "py_split sep s \<noteq> [] \<and> hd (py_split sep s) = takeWhile (\<lambda>c. c \<noteq> sep) s"
  by (induction s) (auto split: list.splits)

text \<open>
  C7. For every price string, \<open>price_conversion\<close> returns the part before the first
  \<open>.\<close> with every character other than the ten digits removed; the three examples of
  the specification follow (the Cyrillic letters of the first are written as their
  UTF-8 bytes).
\<close>

theorem price_conversion_normalizes:
  "price_conversion (PStr s) =
     Inr (filter (\<lambda>c. c \<in> set ''0123456789'') (takeWhile (\<lambda>c. c \<noteq> CHR ''.'') s))
   \<and> price_conversion
        (PStr (''5'990.00 '' @ [CHR 0xD1, CHR 0x80, CHR 0xD1, CHR 0x83, CHR 0xD0, CHR 0xB1] @ ''.''))
       = Inr ''5990''
   \<and> price_conversion (PStr ''100.00'') = Inr ''100''
   \<and> price_conversion (PStr ''1,234.50 $'') = Inr ''1234''"
proof -
  have g: "price_conversion (PStr s) =
     Inr (filter (\<lambda>c. c \<in> set ''0123456789'') (takeWhile (\<lambda>c. c \<noteq> CHR ''.'') s))" for s
    using py_split_hd[of "CHR ''.''" s]
    by (cases "py_split (CHR ''.'') s") (simp_all add: re_sub_non_digits_def is_digit_def[abs_def])
  show ?thesis
    by (intro conjI g) (simp_all add: re_sub_non_digits_def is_digit_def)
qed

section \<open>Reconciliation\<close>

lemma seller_loop_reconcile:
  "seller_stocks_loop ws ids acc =
     (case reconcile ws ids of Inl e \<Rightarrow> Inl e
      | Inr (pl, r) \<Rightarrow> Inr (acc @ map seller_entry pl, r))"
  by (induction ws arbitrary: ids acc)
     (auto simp: bucket_def code_of_def seller_entry_def Let_def split: sum.splits)

lemma market_loop_reconcile:
  "market_stocks_loop wh date ws ids acc =
     (case reconcile ws ids of Inl e \<Rightarrow> Inl e
      | Inr (pl, r) \<Rightarrow> Inr (acc @ map (market_entry wh date) pl, r))"
  by (induction ws arbitrary: ids acc)
     (auto simp: bucket_def code_of_def market_entry_def Let_def split: sum.splits)

lemma seller_create_stocks_reconcile:
  "seller_create_stocks ws ids =
     (case reconcile ws ids of Inl e \<Rightarrow> Inl e
      | Inr (pl, r) \<Rightarrow> Inr (map seller_entry pl @ map (\<lambda>i. seller_entry (i, 0)) r, r))"
  by (simp add: seller_create_stocks_def seller_loop_reconcile seller_entry_def split: sum.splits)

lemma market_create_stocks_reconcile:
  "market_create_stocks date ws ids wh =
     (case reconcile ws ids of Inl e \<Rightarrow> Inl e
      | Inr (pl, r) \<Rightarrow>
          Inr (map (market_entry wh date) pl @ map (\<lambda>i. market_entry wh date (i, 0)) r, r))"
  by (simp add: market_create_stocks_def market_loop_reconcile market_entry_def split: sum.splits)

lemma reconcile_rest:
  "reconcile ws ids = Inr (pl, r) \<Longrightarrow> r = fold remove1 (map code_of ws) ids"
proof (induction ws arbitrary: ids pl)
  case Nil then show ?case by simp
next
  case (Cons w ws)
  show ?case
  proof (cases "code_of w \<in> set ids")
    case True
    with Cons.prems obtain q pl' where "reconcile ws (remove1 (code_of w) ids) = Inr (pl', r)"
      by (auto split: sum.splits)
    from Cons.IH[OF this] show ?thesis by simp
  next
    case False
    with Cons.prems have "reconcile ws ids = Inr (pl, r)" by simp
    from Cons.IH[OF this] False show ?thesis by (simp add: remove1_idem)
  qed
qed

lemma fold_remove1_distinct:
  "distinct ids \<Longrightarrow> fold remove1 cs ids = filter (\<lambda>i. i \<notin> set cs) ids"
proof (induction cs arbitrary: ids)
  case Nil then show ?case by simp
next
  case (Cons c cs)
  have "fold remove1 (c # cs) ids = fold remove1 cs (remove1 c ids)" by simp
  also have "\<dots> = filter (\<lambda>i. i \<notin> set cs) (remove1 c ids)"
    using Cons.IH[of "remove1 c ids"] Cons.prems by simp
  also have "\<dots> = filter (\<lambda>i. i \<notin> set (c # cs)) ids"
    using Cons.prems by (simp add: distinct_remove1_removeAll removeAll_filter_not_eq conj_commute eq_commute)
  finally show ?case .
qed

lemma reconcile_mset:
  "reconcile ws ids = Inr (pl, r) \<Longrightarrow> mset (map fst pl) + mset r = mset ids"
proof (induction ws arbitrary: ids pl)
  case Nil then show ?case by simp
next
  case (Cons w ws)
  show ?case
  proof (cases "code_of w \<in> set ids")
    case True
    with Cons.prems obtain q pl' where
      r: "reconcile ws (remove1 (code_of w) ids) = Inr (pl', r)" and pl: "pl = (code_of w, q) # pl'"
      by (auto split: sum.splits)
    from Cons.IH[OF r] True pl show ?thesis by simp
  next
    case False
    with Cons.prems have "reconcile ws ids = Inr (pl, r)" by simp
    from Cons.IH[OF this] show ?thesis .
  qed
qed

lemma reconcile_succeeds:
  assumes "distinct ids"
    and "\<And>pre w post. ws = pre @ w # post \<Longrightarrow> code_of w \<in> set ids \<Longrightarrow>
           code_of w \<notin> set (map code_of pre) \<Longrightarrow> \<exists>q. bucket (Kolichestvo w) = Inr q"
  shows "\<exists>pl r. reconcile ws ids = Inr (pl, r)"
  using assms
proof (induction ws arbitrary: ids)
  case Nil then show ?case by simp
next
  case (Cons w ws)
  show ?case
  proof (cases "code_of w \<in> set ids")
    case True
    from Cons.prems(2)[of "[]" w ws] True obtain q where q: "bucket (Kolichestvo w) = Inr q" by auto
    have d: "distinct (remove1 (code_of w) ids)" using Cons.prems(1) by simp
    have "\<exists>pl r. reconcile ws (remove1 (code_of w) ids) = Inr (pl, r)"
    proof (rule Cons.IH[OF d])
      fix pre x post
      assume a: "ws = pre @ x # post" "code_of x \<in> set (remove1 (code_of w) ids)"
        "code_of x \<notin> set (map code_of pre)"
      have "code_of x \<noteq> code_of w" using a(2) Cons.prems(1) by auto
      moreover have "code_of x \<in> set ids" using a(2) by (meson notin_set_remove1)
      ultimately show "\<exists>q. bucket (Kolichestvo x) = Inr q"
        using Cons.prems(2)[of "w # pre" x post] a by auto
    qed
    then show ?thesis using True q by auto
  next
    case False
    have "\<exists>pl r. reconcile ws ids = Inr (pl, r)"
    proof (rule Cons.IH[OF Cons.prems(1)])
      fix pre x post
      assume a: "ws = pre @ x # post" "code_of x \<in> set ids" "code_of x \<notin> set (map code_of pre)"
      have "code_of x \<noteq> code_of w" using a(2) False by auto
      then show "\<exists>q. bucket (Kolichestvo x) = Inr q"
        using Cons.prems(2)[of "w # pre" x post] a by auto
    qed
    then show ?thesis using False by auto
  qed
qed

lemma reconcile_append:
  "reconcile (xs @ ys) ids =
     (case reconcile xs ids of Inl e \<Rightarrow> Inl e
      | Inr (p1, r1) \<Rightarrow>
          (case reconcile ys r1 of Inl e \<Rightarrow> Inl e | Inr (p2, r2) \<Rightarrow> Inr (p1 @ p2, r2)))"
  by (induction xs arbitrary: ids) (auto split: sum.splits)

lemma bucket_ok:
  "py_str q = ''>10'' \<or> py_str q = ''1'' \<or> (\<exists>i. py_int q = Inr i) \<Longrightarrow> \<exists>n. bucket q = Inr n"
  by (auto simp: bucket_def)

lemma seller_prices_loop_ids:
  "seller_prices_loop ws known acc = Inr ps \<Longrightarrow>
     map price_offer_id ps = map price_offer_id acc @ filter (\<lambda>c. c \<in> set known) (map code_of ws)"
  by (induction ws arbitrary: acc) (auto simp: code_of_def split: if_splits sum.splits)

lemma market_prices_loop_ids:
  "market_prices_loop ws known acc = Inr ps \<Longrightarrow>
     map mp_id ps = map mp_id acc @ filter (\<lambda>c. c \<in> set known) (map code_of ws)"
  by (induction ws arbitrary: acc) (auto simp: code_of_def split: if_splits sum.splits)

lemma seller_prices_loop_none:
  "\<forall>w \<in> set ws. code_of w \<notin> set known \<Longrightarrow> seller_prices_loop ws known acc = Inr acc"
  by (induction ws arbitrary: acc) (auto simp: code_of_def)

lemma market_prices_loop_none:
  "\<forall>w \<in> set ws. code_of w \<notin> set known \<Longrightarrow> market_prices_loop ws known acc = Inr acc"
  by (induction ws arbitrary: acc) (auto simp: code_of_def)

lemma reconcile_complete:
  assumes d: "distinct ids" and r: "reconcile ws ids = Inr (pl, rest)"
  shows "distinct (map fst pl @ rest)" and "set (map fst pl @ rest) = set ids"
    and "length pl + length rest = length ids"
    and "rest = filter (\<lambda>i. i \<notin> set (map code_of ws)) ids"
proof -
  have m: "mset (map fst pl @ rest) = mset ids" using reconcile_mset[OF r] by simp
  show "distinct (map fst pl @ rest)" using m d by (metis mset_eq_imp_distinct_iff)
  show "set (map fst pl @ rest) = set ids" using m by (rule mset_eq_setD)
  show "length pl + length rest = length ids" using mset_eq_length[OF m] by simp
  show "rest = filter (\<lambda>i. i \<notin> set (map code_of ws)) ids"
    using reconcile_rest[OF r] fold_remove1_distinct[OF d] by simp
qed

lemma first_records_ok:
  assumes "\<forall>k < length ws.
           code_of (ws ! k) \<in> set ids \<and> code_of (ws ! k) \<notin> set (map code_of (take k ws))
           \<longrightarrow> P (ws ! k)"
    and "ws = pre @ w # post" "code_of w \<in> set ids" "code_of w \<notin> set (map code_of pre)"
  shows "P w"
proof -
  have "length pre < length ws" "ws ! length pre = w" "take (length pre) ws = pre"
    using assms(2) by simp_all
  then show ?thesis using assms(1,3,4) by metis
qed

text \<open>
  C2. For a duplicate-free list of known identifiers and an inventory in which every
  record that is matched (its code is known and no earlier record has the same code)
  has a quantity that reads \<open>>10\<close>, reads \<open>1\<close> or parses as an integer,
  \<open>create_stocks\<close> of either platform returns, and its result has exactly one entry per
  known identifier: the entries' identifiers are pairwise different, they are the known
  ones, and an identifier that is no record's code has the zero entry. Whenever
  \<open>create_prices\<close> of either platform returns, its entries are, in order, the codes of
  the records whose code is in the list it was given; no other record has an entry.
\<close>

theorem reconciliation_completeness:
  assumes "distinct offer_ids"
    and "\<forall>k < length watch_remnants.
           py_str (Kod (watch_remnants ! k)) \<in> set offer_ids \<and>
           py_str (Kod (watch_remnants ! k))
             \<notin> set (map (\<lambda>w. py_str (Kod w)) (take k watch_remnants))
           \<longrightarrow> py_str (Kolichestvo (watch_remnants ! k)) = ''>10''
             \<or> py_str (Kolichestvo (watch_remnants ! k)) = ''1''
             \<or> (\<exists>i. py_int (Kolichestvo (watch_remnants ! k)) = Inr i)"
  shows "(\<exists>stocks rest.
            seller_create_stocks watch_remnants offer_ids = Inr (stocks, rest)
            \<and> distinct (map offer_id stocks) \<and> set (map offer_id stocks) = set offer_ids
            \<and> length stocks = length offer_ids
            \<and> (\<forall>i \<in> set offer_ids. i \<notin> set (map (\<lambda>w. py_str (Kod w)) watch_remnants)
                  \<longrightarrow> \<lparr>offer_id = i, stock = 0\<rparr> \<in> set stocks))
       \<and> (\<exists>stocks rest.
            market_create_stocks date watch_remnants offer_ids warehouse_id = Inr (stocks, rest)
            \<and> distinct (map sku stocks) \<and> set (map sku stocks) = set offer_ids
            \<and> length stocks = length offer_ids
            \<and> (\<forall>i \<in> set offer_ids. i \<notin> set (map (\<lambda>w. py_str (Kod w)) watch_remnants)
                  \<longrightarrow> \<lparr>sku = i, warehouseId = warehouse_id,
                        items = [\<lparr>item_count = 0, item_type = ''FIT'', updatedAt = date\<rparr>]\<rparr>
                      \<in> set stocks))
       \<and> (\<forall>known prices. seller_create_prices watch_remnants known = Inr prices
            \<longrightarrow> map price_offer_id prices
                = filter (\<lambda>c. c \<in> set known) (map (\<lambda>w. py_str (Kod w)) watch_remnants))
       \<and> (\<forall>known prices. market_create_prices watch_remnants known = Inr prices
            \<longrightarrow> map mp_id prices
                = filter (\<lambda>c. c \<in> set known) (map (\<lambda>w. py_str (Kod w)) watch_remnants))"
proof -
  have c: "(\<lambda>w. py_str (Kod w)) = code_of" by (simp add: code_of_def fun_eq_iff)
  have "\<exists>pl r. reconcile watch_remnants offer_ids = Inr (pl, r)"
  proof (rule reconcile_succeeds[OF assms(1)])
    fix pre w post
    assume a: "watch_remnants = pre @ w # post" "code_of w \<in> set offer_ids"
      "code_of w \<notin> set (map code_of pre)"
    have "py_str (Kolichestvo w) = ''>10'' \<or> py_str (Kolichestvo w) = ''1''
          \<or> (\<exists>i. py_int (Kolichestvo w) = Inr i)"
      by (rule first_records_ok[where P = "\<lambda>w. py_str (Kolichestvo w) = ''>10''
            \<or> py_str (Kolichestvo w) = ''1'' \<or> (\<exists>i. py_int (Kolichestvo w) = Inr i)",
            OF _ a]) (use assms(2) in \<open>simp add: code_of_def\<close>)
    then show "\<exists>q. bucket (Kolichestvo w) = Inr q" by (rule bucket_ok)
  qed
  then obtain pl r where r: "reconcile watch_remnants offer_ids = Inr (pl, r)" by blast
  note k = reconcile_complete[OF assms(1) r]
  have ids: "map fst pl @ r = map offer_id (map seller_entry pl @ map (\<lambda>i. seller_entry (i, 0)) r)"
    by (simp add: seller_entry_def comp_def)
  have mids: "map fst pl @ r = map sku (map (market_entry warehouse_id date) pl
                @ map (\<lambda>i. market_entry warehouse_id date (i, 0)) r)"
    by (simp add: market_entry_def comp_def)
  have un: "i \<in> set r" if "i \<in> set offer_ids" "i \<notin> set (map code_of watch_remnants)" for i
    using that k(4) by simp
  have s: "\<exists>stocks rest.
            seller_create_stocks watch_remnants offer_ids = Inr (stocks, rest)
            \<and> distinct (map offer_id stocks) \<and> set (map offer_id stocks) = set offer_ids
            \<and> length stocks = length offer_ids
            \<and> (\<forall>i \<in> set offer_ids. i \<notin> set (map code_of watch_remnants)
                  \<longrightarrow> \<lparr>offer_id = i, stock = 0\<rparr> \<in> set stocks)"
  proof (intro exI conjI)
    show "seller_create_stocks watch_remnants offer_ids
          = Inr (map seller_entry pl @ map (\<lambda>i. seller_entry (i, 0)) r, r)"
      by (simp add: seller_create_stocks_reconcile r)
    show "distinct (map offer_id (map seller_entry pl @ map (\<lambda>i. seller_entry (i, 0)) r))"
      using k(1) unfolding ids .
    show "set (map offer_id (map seller_entry pl @ map (\<lambda>i. seller_entry (i, 0)) r)) = set offer_ids"
      using k(2) unfolding ids .
    show "length (map seller_entry pl @ map (\<lambda>i. seller_entry (i, 0)) r) = length offer_ids"
      using k(3) by simp
    show "\<forall>i \<in> set offer_ids. i \<notin> set (map code_of watch_remnants)
            \<longrightarrow> \<lparr>offer_id = i, stock = 0\<rparr> \<in> set (map seller_entry pl @ map (\<lambda>i. seller_entry (i, 0)) r)"
      using un by (auto simp: seller_entry_def)
  qed
  have m: "\<exists>stocks rest.
            market_create_stocks date watch_remnants offer_ids warehouse_id = Inr (stocks, rest)
            \<and> distinct (map sku stocks) \<and> set (map sku stocks) = set offer_ids
            \<and> length stocks = length offer_ids
            \<and> (\<forall>i \<in> set offer_ids. i \<notin> set (map code_of watch_remnants)
                  \<longrightarrow> \<lparr>sku = i, warehouseId = warehouse_id,
                        items = [\<lparr>item_count = 0, item_type = ''FIT'', updatedAt = date\<rparr>]\<rparr>
                      \<in> set stocks)"
  proof (intro exI conjI)
    let ?st = "map (market_entry warehouse_id date) pl
                @ map (\<lambda>i. market_entry warehouse_id date (i, 0)) r"
    show "market_create_stocks date watch_remnants offer_ids warehouse_id = Inr (?st, r)"
      by (simp add: market_create_stocks_reconcile r)
    show "distinct (map sku ?st)" using k(1) unfolding mids .
    show "set (map sku ?st) = set offer_ids" using k(2) unfolding mids .
    show "length ?st = length offer_ids" using k(3) by simp
    show "\<forall>i \<in> set offer_ids. i \<notin> set (map code_of watch_remnants)
            \<longrightarrow> \<lparr>sku = i, warehouseId = warehouse_id,
                  items = [\<lparr>item_count = 0, item_type = ''FIT'', updatedAt = date\<rparr>]\<rparr> \<in> set ?st"
      using un by (auto simp: market_entry_def)
  qed
  have p: "\<forall>known prices. seller_create_prices watch_remnants known = Inr prices
            \<longrightarrow> map price_offer_id prices = filter (\<lambda>c. c \<in> set known) (map code_of watch_remnants)"
    using seller_prices_loop_ids[of watch_remnants _ "[]"] by (simp add: seller_create_prices_def)
  have mp: "\<forall>known prices. market_create_prices watch_remnants known = Inr prices
            \<longrightarrow> map mp_id prices = filter (\<lambda>c. c \<in> set known) (map code_of watch_remnants)"
    using market_prices_loop_ids[of watch_remnants _ "[]"] by (simp add: market_create_prices_def)
  show ?thesis unfolding c using s m p mp by blast
qed


theorem reconciliation_completeness_witness:
  "distinct [''A1'', ''A2'', ''A3'']
   \<and> (\<exists>stocks rest.
         seller_create_stocks e2e_inventory [''A1'', ''A2'', ''A3''] = Inr (stocks, rest)
         \<and> distinct (map offer_id stocks)
         \<and> set (map offer_id stocks) = set [''A1'', ''A2'', ''A3'']
         \<and> length stocks = length [''A1'', ''A2'', ''A3''])"
proof -
  have h1: "distinct [''A1'', ''A2'', ''A3'']" by simp
  have h2: "\<forall>k < length e2e_inventory.
           py_str (Kod (e2e_inventory ! k)) \<in> set [''A1'', ''A2'', ''A3''] \<and>
           py_str (Kod (e2e_inventory ! k))
             \<notin> set (map (\<lambda>w. py_str (Kod w)) (take k e2e_inventory))
           \<longrightarrow> py_str (Kolichestvo (e2e_inventory ! k)) = ''>10''
             \<or> py_str (Kolichestvo (e2e_inventory ! k)) = ''1''
             \<or> (\<exists>i. py_int (Kolichestvo (e2e_inventory ! k)) = Inr i)"
    by (simp add: e2e_inventory_def less_Suc_eq)
  from reconciliation_completeness[OF h1 h2] h1 show ?thesis by blast
qed

subsection \<open>Quantity bucketing\<close>

lemma bucket_cases:
  "bucket q = Inr n \<Longrightarrow>
     (if py_str q = ''>10'' then n = 100 else if py_str q = ''1'' then n = 0 else py_int q = Inr n)"
  by (auto simp: bucket_def split: if_splits)

lemma reconcile_at:
  assumes pre: "reconcile pre ids = Inr (p1, known)"
    and mem: "code_of w \<in> set known"
  shows "reconcile (pre @ w # post) ids =
     (case bucket (Kolichestvo w) of Inl e \<Rightarrow> Inl e
      | Inr q \<Rightarrow>
         (case reconcile post (remove1 (code_of w) known) of Inl e \<Rightarrow> Inl e
          | Inr (p2, r2) \<Rightarrow> Inr (p1 @ (code_of w, q) # p2, r2)))"
  using pre mem by (simp add: reconcile_append split: sum.splits)

lemma int_of_string_examples:
  "int_of_string ''7'' = Some 7" "int_of_string ''0'' = Some 0"
  by (simp_all add: int_of_string_def py_strip_def is_space_def parse_unsigned_def
        is_digit_def digit_val_def)

text \<open>
  C6. Let \<open>known\<close> be the identifier list as it stands after the records \<open>pre\<close>
  (\<open>s0\<close> then holds one entry per record matched so far and one per identifier in
  \<open>known\<close>). If the next record \<open>w\<close> has its code in \<open>known\<close> and \<open>create_stocks\<close>
  returns for the whole inventory, the entry of \<open>w\<close> follows the entries matched
  before it and carries the quantity 100 when the raw quantity reads \<open>>10\<close>, 0 when
  it reads \<open>1\<close>, and otherwise the integer \<open>int\<close> returns for the raw value. This holds
  on both platforms; the four examples of the specification follow.
\<close>

theorem quantity_bucketing:
  "(seller_create_stocks pre offer_ids = Inr (s0, known) \<and> py_str (Kod w) \<in> set known
      \<and> seller_create_stocks (pre @ w # post) offer_ids = Inr (stocks, rest)
    \<longrightarrow> (\<exists>q. stocks ! (length s0 - length known) = \<lparr>offer_id = py_str (Kod w), stock = q\<rparr>
           \<and> (if py_str (Kolichestvo w) = ''>10'' then q = 100
              else if py_str (Kolichestvo w) = ''1'' then q = 0
              else py_int (Kolichestvo w) = Inr q)))
   \<and> (market_create_stocks date pre offer_ids warehouse_id = Inr (ms0, mknown)
      \<and> py_str (Kod w) \<in> set mknown
      \<and> market_create_stocks date (pre @ w # post) offer_ids warehouse_id = Inr (mstocks, mrest)
    \<longrightarrow> (\<exists>q. mstocks ! (length ms0 - length mknown)
             = \<lparr>sku = py_str (Kod w), warehouseId = warehouse_id,
                items = [\<lparr>item_count = q, item_type = ''FIT'', updatedAt = date\<rparr>]\<rparr>
           \<and> (if py_str (Kolichestvo w) = ''>10'' then q = 100
              else if py_str (Kolichestvo w) = ''1'' then q = 0
              else py_int (Kolichestvo w) = Inr q)))
   \<and> seller_create_stocks [\<lparr>Kod = PStr c, Kolichestvo = PStr ''>10'', Tsena = p\<rparr>] [c]
       = Inr ([\<lparr>offer_id = c, stock = 100\<rparr>], [])
   \<and> seller_create_stocks [\<lparr>Kod = PStr c, Kolichestvo = PStr ''1'', Tsena = p\<rparr>] [c]
       = Inr ([\<lparr>offer_id = c, stock = 0\<rparr>], [])
   \<and> seller_create_stocks [\<lparr>Kod = PStr c, Kolichestvo = PStr ''7'', Tsena = p\<rparr>] [c]
       = Inr ([\<lparr>offer_id = c, stock = 7\<rparr>], [])
   \<and> seller_create_stocks [\<lparr>Kod = PStr c, Kolichestvo = PStr ''0'', Tsena = p\<rparr>] [c]
       = Inr ([\<lparr>offer_id = c, stock = 0\<rparr>], [])
   \<and> market_create_stocks date [\<lparr>Kod = PStr c, Kolichestvo = PStr ''>10'', Tsena = p\<rparr>] [c] wh
       = Inr ([\<lparr>sku = c, warehouseId = wh,
                items = [\<lparr>item_count = 100, item_type = ''FIT'', updatedAt = date\<rparr>]\<rparr>], [])
   \<and> market_create_stocks date [\<lparr>Kod = PStr c, Kolichestvo = PStr ''1'', Tsena = p\<rparr>] [c] wh
       = Inr ([\<lparr>sku = c, warehouseId = wh,
                items = [\<lparr>item_count = 0, item_type = ''FIT'', updatedAt = date\<rparr>]\<rparr>], [])
   \<and> market_create_stocks date [\<lparr>Kod = PStr c, Kolichestvo = PStr ''7'', Tsena = p\<rparr>] [c] wh
       = Inr ([\<lparr>sku = c, warehouseId = wh,
                items = [\<lparr>item_count = 7, item_type = ''FIT'', updatedAt = date\<rparr>]\<rparr>], [])
   \<and> market_create_stocks date [\<lparr>Kod = PStr c, Kolichestvo = PStr ''0'', Tsena = p\<rparr>] [c] wh
       = Inr ([\<lparr>sku = c, warehouseId = wh,
                items = [\<lparr>item_count = 0, item_type = ''FIT'', updatedAt = date\<rparr>]\<rparr>], [])"
proof -
  have s: "\<exists>q. stocks ! (length s0 - length known) = \<lparr>offer_id = py_str (Kod w), stock = q\<rparr>
           \<and> (if py_str (Kolichestvo w) = ''>10'' then q = 100
              else if py_str (Kolichestvo w) = ''1'' then q = 0
              else py_int (Kolichestvo w) = Inr q)"
    if a: "seller_create_stocks pre offer_ids = Inr (s0, known)" "py_str (Kod w) \<in> set known"
      "seller_create_stocks (pre @ w # post) offer_ids = Inr (stocks, rest)"
  proof -
    from a(1) obtain p1 where p1: "reconcile pre offer_ids = Inr (p1, known)"
      and s0: "s0 = map seller_entry p1 @ map (\<lambda>i. seller_entry (i, 0)) known"
      by (auto simp: seller_create_stocks_reconcile split: sum.splits)
    have mem: "code_of w \<in> set known" using a(2) by (simp add: code_of_def)
    from a(3) obtain q p2 where q: "bucket (Kolichestvo w) = Inr q"
      and st: "stocks = map seller_entry (p1 @ (code_of w, q) # p2)
                 @ map (\<lambda>i. seller_entry (i, 0)) rest"
      by (auto simp: seller_create_stocks_reconcile reconcile_at[OF p1 mem] split: sum.splits)
    have "length s0 - length known = length p1" by (simp add: s0)
    then have "stocks ! (length s0 - length known) = seller_entry (code_of w, q)"
      by (simp add: st nth_append)
    then show ?thesis using bucket_cases[OF q] by (auto simp: seller_entry_def code_of_def)
  qed
  have m: "\<exists>q. mstocks ! (length ms0 - length mknown)
             = \<lparr>sku = py_str (Kod w), warehouseId = warehouse_id,
                items = [\<lparr>item_count = q, item_type = ''FIT'', updatedAt = date\<rparr>]\<rparr>
           \<and> (if py_str (Kolichestvo w) = ''>10'' then q = 100
              else if py_str (Kolichestvo w) = ''1'' then q = 0
              else py_int (Kolichestvo w) = Inr q)"
    if a: "market_create_stocks date pre offer_ids warehouse_id = Inr (ms0, mknown)"
      "py_str (Kod w) \<in> set mknown"
      "market_create_stocks date (pre @ w # post) offer_ids warehouse_id = Inr (mstocks, mrest)"
  proof -
    from a(1) obtain p1 where p1: "reconcile pre offer_ids = Inr (p1, mknown)"
      and s0: "ms0 = map (market_entry warehouse_id date) p1
                 @ map (\<lambda>i. market_entry warehouse_id date (i, 0)) mknown"
      by (auto simp: market_create_stocks_reconcile split: sum.splits)
    have mem: "code_of w \<in> set mknown" using a(2) by (simp add: code_of_def)
    from a(3) obtain q p2 where q: "bucket (Kolichestvo w) = Inr q"
      and st: "mstocks = map (market_entry warehouse_id date) (p1 @ (code_of w, q) # p2)
                 @ map (\<lambda>i. market_entry warehouse_id date (i, 0)) mrest"
      by (auto simp: market_create_stocks_reconcile reconcile_at[OF p1 mem] split: sum.splits)
    have "length ms0 - length mknown = length p1" by (simp add: s0)
    then have "mstocks ! (length ms0 - length mknown) = market_entry warehouse_id date (code_of w, q)"
      by (simp add: st nth_append)
    then show ?thesis using bucket_cases[OF q] by (auto simp: market_entry_def code_of_def)
  qed
  have e: "seller_create_stocks [\<lparr>Kod = PStr c, Kolichestvo = PStr ''>10'', Tsena = p\<rparr>] [c]
       = Inr ([\<lparr>offer_id = c, stock = 100\<rparr>], [])"
    "seller_create_stocks [\<lparr>Kod = PStr c, Kolichestvo = PStr ''1'', Tsena = p\<rparr>] [c]
       = Inr ([\<lparr>offer_id = c, stock = 0\<rparr>], [])"
    "seller_create_stocks [\<lparr>Kod = PStr c, Kolichestvo = PStr ''7'', Tsena = p\<rparr>] [c]
       = Inr ([\<lparr>offer_id = c, stock = 7\<rparr>], [])"
    "seller_create_stocks [\<lparr>Kod = PStr c, Kolichestvo = PStr ''0'', Tsena = p\<rparr>] [c]
       = Inr ([\<lparr>offer_id = c, stock = 0\<rparr>], [])"
    by (simp_all add: seller_create_stocks_def int_of_string_examples)
  have me: "market_create_stocks date [\<lparr>Kod = PStr c, Kolichestvo = PStr ''>10'', Tsena = p\<rparr>] [c] wh
       = Inr ([\<lparr>sku = c, warehouseId = wh,
                items = [\<lparr>item_count = 100, item_type = ''FIT'', updatedAt = date\<rparr>]\<rparr>], [])"
    "market_create_stocks date [\<lparr>Kod = PStr c, Kolichestvo = PStr ''1'', Tsena = p\<rparr>] [c] wh
       = Inr ([\<lparr>sku = c, warehouseId = wh,
                items = [\<lparr>item_count = 0, item_type = ''FIT'', updatedAt = date\<rparr>]\<rparr>], [])"
    "market_create_stocks date [\<lparr>Kod = PStr c, Kolichestvo = PStr ''7'', Tsena = p\<rparr>] [c] wh
       = Inr ([\<lparr>sku = c, warehouseId = wh,
                items = [\<lparr>item_count = 7, item_type = ''FIT'', updatedAt = date\<rparr>]\<rparr>], [])"
    "market_create_stocks date [\<lparr>Kod = PStr c, Kolichestvo = PStr ''0'', Tsena = p\<rparr>] [c] wh
       = Inr ([\<lparr>sku = c, warehouseId = wh,
                items = [\<lparr>item_count = 0, item_type = ''FIT'', updatedAt = date\<rparr>]\<rparr>], [])"
    by (simp_all add: market_create_stocks_def int_of_string_examples)
  show ?thesis using s m e me by blast
qed

theorem quantity_bucketing_witness:
  "seller_create_stocks [hd e2e_inventory] [''A1'', ''A2'', ''A3'']
     = Inr ([\<lparr>offer_id = ''A1'', stock = 100\<rparr>, \<lparr>offer_id = ''A2'', stock = 0\<rparr>,
             \<lparr>offer_id = ''A3'', stock = 0\<rparr>], [''A2'', ''A3''])
   \<and> seller_create_stocks
        ([hd e2e_inventory] @ \<lparr>Kod = PStr ''A3'', Kolichestvo = PStr ''7'', Tsena = PNone\<rparr> # [])
        [''A1'', ''A2'', ''A3'']
     = Inr ([\<lparr>offer_id = ''A1'', stock = 100\<rparr>, \<lparr>offer_id = ''A3'', stock = 7\<rparr>,
             \<lparr>offer_id = ''A2'', stock = 0\<rparr>], [''A2''])
   \<and> (\<exists>q. [\<lparr>offer_id = ''A1'', stock = 100\<rparr>, \<lparr>offer_id = ''A3'', stock = 7\<rparr>,
             \<lparr>offer_id = ''A2'', stock = 0\<rparr>] ! (3 - 2) = \<lparr>offer_id = ''A3'', stock = q\<rparr>
          \<and> py_int (PStr ''7'') = Inr q)"
proof -
  let ?w = "\<lparr>Kod = PStr ''A3'', Kolichestvo = PStr ''7'', Tsena = PNone\<rparr>"
  let ?s0 = "[\<lparr>offer_id = ''A1'', stock = 100\<rparr>, \<lparr>offer_id = ''A2'', stock = 0\<rparr>,
             \<lparr>offer_id = ''A3'', stock = 0\<rparr>]"
  let ?st = "[\<lparr>offer_id = ''A1'', stock = 100\<rparr>, \<lparr>offer_id = ''A3'', stock = 7\<rparr>,
             \<lparr>offer_id = ''A2'', stock = 0\<rparr>]"
  have h1: "seller_create_stocks [hd e2e_inventory] [''A1'', ''A2'', ''A3'']
     = Inr (?s0, [''A2'', ''A3''])"
    by (simp add: e2e_inventory_def seller_create_stocks_def)
  have h2: "py_str (Kod ?w) \<in> set [''A2'', ''A3'']" by simp
  have h3: "seller_create_stocks ([hd e2e_inventory] @ ?w # []) [''A1'', ''A2'', ''A3'']
     = Inr (?st, [''A2''])"
    by (simp add: e2e_inventory_def seller_create_stocks_def int_of_string_examples)
  from quantity_bucketing[of "[hd e2e_inventory]" "[''A1'', ''A2'', ''A3'']" ?s0 "[''A2'', ''A3'']"
      ?w "[]" ?st "[''A2'']"] h1 h2 h3
  have "\<exists>q. ?st ! (length ?s0 - length [''A2'', ''A3'']) = \<lparr>offer_id = py_str (Kod ?w), stock = q\<rparr>
      \<and> (if py_str (Kolichestvo ?w) = ''>10'' then q = 100
              else if py_str (Kolichestvo ?w) = ''1'' then q = 0
              else py_int (Kolichestvo ?w) = Inr q)"
    by blast
  then have "\<exists>q. ?st ! (3 - 2) = \<lparr>offer_id = ''A3'', stock = q\<rparr> \<and> py_int (PStr ''7'') = Inr q"
    by simp
  with h1 h3 show ?thesis by blast
qed

subsection \<open>The caller's identifier list\<close>

text \<open>
  C10, as stated, fails when an identifier occurs twice in the list: \<^verbatim>\<open>list.remove\<close>
  deletes one occurrence per matched record. Below, the one record is matched (its
  entry carries the quantity 7) and its code is still in the list on return.
\<close>

theorem create_stocks_duplicate_counterexample:
  "seller_create_stocks [\<lparr>Kod = PStr ''A'', Kolichestvo = PStr ''7'', Tsena = PNone\<rparr>] [''A'', ''A'']
     = Inr ([\<lparr>offer_id = ''A'', stock = 7\<rparr>, \<lparr>offer_id = ''A'', stock = 0\<rparr>], [''A''])
   \<and> py_str (Kod \<lparr>Kod = PStr ''A'', Kolichestvo = PStr ''7'', Tsena = PNone\<rparr>) \<in> set [''A'']"
  by (simp add: seller_create_stocks_def int_of_string_examples)

text \<open>
  C10, amended. For a duplicate-free identifier list, when \<open>create_stocks\<close> of either
  platform returns, the caller's list holds exactly the identifiers that are no
  record's code, in their original order; \<open>create_prices\<close> called afterwards with the
  same inventory and that list therefore returns no price at all.
\<close>

theorem create_stocks_consumes_offer_ids:
  assumes "distinct offer_ids"
  shows "(seller_create_stocks watch_remnants offer_ids = Inr (stocks, rest)
          \<longrightarrow> rest = filter (\<lambda>i. i \<notin> set (map (\<lambda>w. py_str (Kod w)) watch_remnants)) offer_ids
              \<and> seller_create_prices watch_remnants rest = Inr [])
       \<and> (market_create_stocks date watch_remnants offer_ids warehouse_id = Inr (mstocks, mrest)
          \<longrightarrow> mrest = filter (\<lambda>i. i \<notin> set (map (\<lambda>w. py_str (Kod w)) watch_remnants)) offer_ids
              \<and> market_create_prices watch_remnants mrest = Inr [])"
proof -
  have c: "(\<lambda>w. py_str (Kod w)) = code_of" by (simp add: code_of_def fun_eq_iff)
  have f: "r = filter (\<lambda>i. i \<notin> set (map code_of watch_remnants)) offer_ids
           \<and> seller_create_prices watch_remnants r = Inr []
           \<and> market_create_prices watch_remnants r = Inr []"
    if "reconcile watch_remnants offer_ids = Inr (pl, r)" for pl r
  proof -
    have r: "r = filter (\<lambda>i. i \<notin> set (map code_of watch_remnants)) offer_ids"
      using reconcile_complete(4)[OF assms that] .
    then have "\<forall>w \<in> set watch_remnants. code_of w \<notin> set r" by auto
    then show ?thesis
      using r by (simp add: seller_create_prices_def market_create_prices_def
            seller_prices_loop_none market_prices_loop_none)
  qed
  show ?thesis unfolding c
    using f by (auto simp: seller_create_stocks_reconcile market_create_stocks_reconcile
        split: sum.splits)
qed

theorem create_stocks_consumes_offer_ids_witness:
  "distinct [''A1'', ''A2'', ''A3'']
   \<and> seller_create_stocks e2e_inventory [''A1'', ''A2'', ''A3'']
       = Inr ([\<lparr>offer_id = ''A1'', stock = 100\<rparr>, \<lparr>offer_id = ''A2'', stock = 0\<rparr>,
               \<lparr>offer_id = ''A3'', stock = 0\<rparr>], [''A3''])
   \<and> [''A3''] = filter (\<lambda>i. i \<notin> set (map (\<lambda>w. py_str (Kod w)) e2e_inventory))
                  [''A1'', ''A2'', ''A3'']
   \<and> seller_create_prices e2e_inventory [''A3''] = Inr []"
proof -
  have h1: "distinct [''A1'', ''A2'', ''A3'']" by simp
  have h2: "seller_create_stocks e2e_inventory [''A1'', ''A2'', ''A3'']
       = Inr ([\<lparr>offer_id = ''A1'', stock = 100\<rparr>, \<lparr>offer_id = ''A2'', stock = 0\<rparr>,
               \<lparr>offer_id = ''A3'', stock = 0\<rparr>], [''A3''])"
    by (simp add: e2e_inventory_def seller_create_stocks_def)
  from create_stocks_consumes_offer_ids[OF h1, of e2e_inventory _ "[''A3'']"] h1 h2
  show ?thesis by blast
qed

section \<open>Pagination\<close>

lemma seller_three:
  assumes "s_list_response net (length t) '''' = Inr p1"
    and "s_list_response net (Suc (length t)) (page_last_id p1) = Inr p2"
    and "s_list_response net (Suc (Suc (length t))) (page_last_id p2) = Inr p3"
    and "length (page_items p1) = 200" "length (page_items p2) = 200"
        "length (page_items p3) = 50"
    and "page_total p1 = 450" "page_total p2 = 450" "page_total p3 = 450"
  shows "seller_get_offer_ids net t =
           Some (Inr (map p_offer_id (page_items p1 @ page_items p2 @ page_items p3)),
                 t @ [SList '''', SList (page_last_id p1), SList (page_last_id p2)])"
proof -
  have 3: "seller_list_loop net (page_last_id p2) (page_items p1 @ page_items p2)
             (t @ [SList '''', SList (page_last_id p1)])
           = Some (Inr (page_items p1 @ page_items p2 @ page_items p3),
                   t @ [SList '''', SList (page_last_id p1), SList (page_last_id p2)])"
    by (subst seller_list_loop.simps) (simp add: assms)
  have 2: "seller_list_loop net (page_last_id p1) (page_items p1) (t @ [SList ''''])
           = Some (Inr (page_items p1 @ page_items p2 @ page_items p3),
                   t @ [SList '''', SList (page_last_id p1), SList (page_last_id p2)])"
    by (subst seller_list_loop.simps) (simp add: assms 3)
  have 1: "seller_list_loop net '''' [] t
           = Some (Inr (page_items p1 @ page_items p2 @ page_items p3),
                   t @ [SList '''', SList (page_last_id p1), SList (page_last_id p2)])"
    by (subst seller_list_loop.simps) (simp add: assms 2)
  show ?thesis by (simp add: seller_get_offer_ids_def 1)
qed

lemma market_three:
  assumes "m_list_response net (length t) campaign_id '''' = Inr p1"
    and "nextPageToken (page_paging p1) = Some t1" "t1 \<noteq> ''''"
    and "m_list_response net (Suc (length t)) campaign_id t1 = Inr p2"
    and "nextPageToken (page_paging p2) = Some t2" "t2 \<noteq> ''''"
    and "m_list_response net (Suc (Suc (length t))) campaign_id t2 = Inr p3"
    and "nextPageToken (page_paging p3) = None \<or> nextPageToken (page_paging p3) = Some ''''"
  shows "market_get_offer_ids net campaign_id t =
           Some (Inr (map (\<lambda>product. shopSku (entry_offer product))
                        (offerMappingEntries p1 @ offerMappingEntries p2 @ offerMappingEntries p3)),
                 t @ [MList campaign_id '''', MList campaign_id t1, MList campaign_id t2])"
proof -
  let ?all = "offerMappingEntries p1 @ offerMappingEntries p2 @ offerMappingEntries p3"
  let ?tr = "t @ [MList campaign_id '''', MList campaign_id t1, MList campaign_id t2]"
  have 3: "market_list_loop net campaign_id t2 (offerMappingEntries p1 @ offerMappingEntries p2)
             (t @ [MList campaign_id '''', MList campaign_id t1]) = Some (Inr ?all, ?tr)"
    using assms(8) by (subst market_list_loop.simps) (auto simp: assms(7))
  have 2: "market_list_loop net campaign_id t1 (offerMappingEntries p1) (t @ [MList campaign_id ''''])
           = Some (Inr ?all, ?tr)"
    by (subst market_list_loop.simps) (simp add: assms 3)
  have 1: "market_list_loop net campaign_id '''' [] t = Some (Inr ?all, ?tr)"
    by (subst market_list_loop.simps) (simp add: assms 2)
  show ?thesis by (simp add: market_get_offer_ids_def 1)
qed

text \<open>
  C8. Take a source that answers the first three requests of an enumeration with pages
  of 200, 200 and 50 identifiers, each request carrying the cursor the page before gave.
  On Ozon every page reports the total 450; on Yandex Market the first two pages give a
  non-empty next-page token and the third gives none or an empty one. Then
  \<open>get_offer_ids\<close> returns, the calls it made are exactly these three requests, and its
  result is the 450 identifiers in page order.
\<close>

theorem pagination_three_pages:
  "(s_list_response snet (length st) '''' = Inr p1
      \<and> s_list_response snet (Suc (length st)) (page_last_id p1) = Inr p2
      \<and> s_list_response snet (Suc (Suc (length st))) (page_last_id p2) = Inr p3
      \<and> length (page_items p1) = 200 \<and> length (page_items p2) = 200
      \<and> length (page_items p3) = 50
      \<and> page_total p1 = 450 \<and> page_total p2 = 450 \<and> page_total p3 = 450
    \<longrightarrow> seller_get_offer_ids snet st =
          Some (Inr (map p_offer_id (page_items p1 @ page_items p2 @ page_items p3)),
                st @ [SList '''', SList (page_last_id p1), SList (page_last_id p2)])
        \<and> length (map p_offer_id (page_items p1 @ page_items p2 @ page_items p3)) = 450)
   \<and> (m_list_response mnet (length mt) campaign_id '''' = Inr q1
      \<and> nextPageToken (page_paging q1) = Some t1 \<and> t1 \<noteq> ''''
      \<and> m_list_response mnet (Suc (length mt)) campaign_id t1 = Inr q2
      \<and> nextPageToken (page_paging q2) = Some t2 \<and> t2 \<noteq> ''''
      \<and> m_list_response mnet (Suc (Suc (length mt))) campaign_id t2 = Inr q3
      \<and> (nextPageToken (page_paging q3) = None \<or> nextPageToken (page_paging q3) = Some '''')
      \<and> length (offerMappingEntries q1) = 200 \<and> length (offerMappingEntries q2) = 200
      \<and> length (offerMappingEntries q3) = 50
    \<longrightarrow> market_get_offer_ids mnet campaign_id mt =
          Some (Inr (map (\<lambda>product. shopSku (entry_offer product))
                       (offerMappingEntries q1 @ offerMappingEntries q2 @ offerMappingEntries q3)),
                mt @ [MList campaign_id '''', MList campaign_id t1, MList campaign_id t2])
        \<and> length (map (\<lambda>product. shopSku (entry_offer product))
                    (offerMappingEntries q1 @ offerMappingEntries q2 @ offerMappingEntries q3))
            = 450)"
  using seller_three[of snet st p1 p2 p3] market_three[of mnet mt campaign_id q1 t1 q2 t2 q3]
  by simp

theorem pagination_three_pages_witness:
  "seller_get_offer_ids seller_three_pages [] =
     Some (Inr (replicate 200 ''a'' @ replicate 200 ''b'' @ replicate 50 ''c''),
           [SList '''', SList ''p1'', SList ''p2''])
   \<and> market_get_offer_ids market_three_pages ''fbs'' [] =
     Some (Inr (replicate 200 ''a'' @ replicate 200 ''b'' @ replicate 50 ''c''),
           [MList ''fbs'' '''', MList ''fbs'' ''p1'', MList ''fbs'' ''p2''])"
proof -
  let ?p1 = "\<lparr>page_items = replicate 200 \<lparr>p_offer_id = ''a'', product_id = 1\<rparr>,
                 page_last_id = ''p1'', page_total = 450\<rparr>"
  let ?p2 = "\<lparr>page_items = replicate 200 \<lparr>p_offer_id = ''b'', product_id = 2\<rparr>,
                 page_last_id = ''p2'', page_total = 450\<rparr>"
  let ?p3 = "\<lparr>page_items = replicate 50 \<lparr>p_offer_id = ''c'', product_id = 3\<rparr>,
                 page_last_id = '''', page_total = 450\<rparr>"
  let ?q1 = "\<lparr>page_paging = \<lparr>nextPageToken = Some ''p1''\<rparr>,
                 offerMappingEntries = replicate 200 \<lparr>entry_offer = \<lparr>shopSku = ''a''\<rparr>\<rparr>\<rparr>"
  let ?q2 = "\<lparr>page_paging = \<lparr>nextPageToken = Some ''p2''\<rparr>,
                 offerMappingEntries = replicate 200 \<lparr>entry_offer = \<lparr>shopSku = ''b''\<rparr>\<rparr>\<rparr>"
  let ?q3 = "\<lparr>page_paging = \<lparr>nextPageToken = None\<rparr>,
                 offerMappingEntries = replicate 50 \<lparr>entry_offer = \<lparr>shopSku = ''c''\<rparr>\<rparr>\<rparr>"
  from pagination_three_pages[of seller_three_pages "[]" ?p1 ?p2 ?p3
         market_three_pages "[]" "''fbs''" ?q1 "''p1''" ?q2 "''p2''" ?q3]
  show ?thesis
    by (simp add: seller_three_pages_def market_three_pages_def)
qed

section \<open>Orchestration\<close>

lemmas eval_defs = seller_main_def seller_try_block_def seller_get_offer_ids_def
  seller_list_loop.simps seller_create_stocks_def seller_create_prices_def
  divide_def py_range_def py_slice_def slice_bound_def finish_def handler_def
  market_main_def market_try_block_def market_channel_def market_get_offer_ids_def
  market_list_loop.simps market_create_stocks_def market_create_prices_def call_async_def
  market_upload_prices_def e2e_inventory_def re_sub_non_digits_def is_digit_def
  int_of_string_def py_strip_def is_space_def parse_unsigned_def digit_val_def

subsection \<open>\<^verbatim>\<open>seller.main\<close>\<close>

text \<open>
  C1. The end-to-end scenario on the code of \<^verbatim>\<open>seller.main\<close>: \<open>create_stocks\<close> yields
  the stock collection \<open>A1\<close> 100, \<open>A2\<close> 0, \<open>A3\<close> 0 and leaves the identifier list as
  \<open>[A3]\<close>; \<open>create_prices\<close> on that list yields no price; the run uploads the one stock
  chunk and makes no price call. Only on the list as it was enumerated would
  \<open>create_prices\<close> yield \<open>A1\<close> at 500 and \<open>A2\<close> at 100.
\<close>

theorem seller_main_end_to_end:
  "seller_create_stocks e2e_inventory [''A1'', ''A2'', ''A3'']
     = Inr ([\<lparr>offer_id = ''A1'', stock = 100\<rparr>, \<lparr>offer_id = ''A2'', stock = 0\<rparr>,
             \<lparr>offer_id = ''A3'', stock = 0\<rparr>], [''A3''])
   \<and> seller_create_prices e2e_inventory [''A3''] = Inr []
   \<and> seller_main e2e_seller_net
     = Some \<lparr>calls = [SList '''', SDownload,
                       SUpdateStocks [\<lparr>offer_id = ''A1'', stock = 100\<rparr>,
                                      \<lparr>offer_id = ''A2'', stock = 0\<rparr>,
                                      \<lparr>offer_id = ''A3'', stock = 0\<rparr>]],
             printed = [], uncaught = None\<rparr>
   \<and> seller_create_prices e2e_inventory [''A1'', ''A2'', ''A3'']
     = Inr [\<lparr>auto_action_enabled = ''UNKNOWN'', currency_code = ''RUB'',
             price_offer_id = ''A1'', old_price = ''0'', price = ''500''\<rparr>,
            \<lparr>auto_action_enabled = ''UNKNOWN'', currency_code = ''RUB'',
             price_offer_id = ''A2'', old_price = ''0'', price = ''100''\<rparr>]"
  by (simp add: eval_defs e2e_seller_net_def)

subsection \<open>\<^verbatim>\<open>market.main\<close>\<close>

text \<open>
  C3. A run of \<^verbatim>\<open>market.main\<close> in which every request succeeds: the calls are the
  download and, for FBS and then DBS, one catalogue request and one stock upload. No
  price update is among them. The body of \<open>upload_prices\<close>, had it run for FBS, would
  have made a catalogue request and one price update.
\<close>

theorem market_main_uploads_no_price:
  "market_main (example_market_net None None) example_market_config
     = Some \<lparr>calls =
               [MDownload, MList ''fbs'' '''',
                MUpdateStocks ''fbs''
                  [\<lparr>sku = ''A1'', warehouseId = ''w1'',
                    items = [\<lparr>item_count = 100, item_type = ''FIT'',
                              updatedAt = ''2024-01-01T00:00:00Z''\<rparr>]\<rparr>,
                   \<lparr>sku = ''A3'', warehouseId = ''w1'',
                    items = [\<lparr>item_count = 0, item_type = ''FIT'',
                              updatedAt = ''2024-01-01T00:00:00Z''\<rparr>]\<rparr>],
                MList ''dbs'' '''',
                MUpdateStocks ''dbs''
                  [\<lparr>sku = ''A1'', warehouseId = ''w2'',
                    items = [\<lparr>item_count = 100, item_type = ''FIT'',
                              updatedAt = ''2024-01-01T00:00:00Z''\<rparr>]\<rparr>,
                   \<lparr>sku = ''A3'', warehouseId = ''w2'',
                    items = [\<lparr>item_count = 0, item_type = ''FIT'',
                              updatedAt = ''2024-01-01T00:00:00Z''\<rparr>]\<rparr>]],
             printed = [], uncaught = None\<rparr>
   \<and> market_upload_prices (example_market_net None None) e2e_inventory ''fbs'' []
     = Some (Inr [\<lparr>mp_id = ''A1'', mp_price = \<lparr>pv_value = 500, currencyId = ''RUR''\<rparr>\<rparr>],
             [MList ''fbs'' '''',
              MUpdatePrice ''fbs''
                [\<lparr>mp_id = ''A1'', mp_price = \<lparr>pv_value = 500, currencyId = ''RUR''\<rparr>\<rparr>]])"
  by (simp add: eval_defs example_market_net_def example_market_config_def)

lemma market_list_loop_calls_aux:
  assumes "market_list_loop net c page pl t = Some y"
  shows "\<exists>ext. snd y = t @ ext \<and> (\<forall>x \<in> set ext. campaign_of x = Some c \<and> \<not> is_price_call x)"
proof (rule market_list_loop.raw_induct[where P = "\<lambda>net c page pl t y.
         \<exists>ext. snd y = t @ ext \<and> (\<forall>x \<in> set ext. campaign_of x = Some c \<and> \<not> is_price_call x)",
         OF _ assms], goal_cases)
  case (1 loop net c page pl t y)
  show ?case
  proof (cases "m_list_response net (length t) c page")
    case (Inl e)
    with 1(2) show ?thesis by auto
  next
    case (Inr p)
    show ?thesis
    proof (cases "nextPageToken (page_paging p)")
      case None
      with 1(2) Inr show ?thesis by auto
    next
      case (Some page')
      show ?thesis
      proof (cases "page' = []")
        case True
        with 1(2) Inr Some show ?thesis by auto
      next
        case False
        with 1(2) Inr Some have
          "loop net c page' (pl @ offerMappingEntries p) (t @ [MList c page]) = Some y"
          by simp
        from 1(1)[OF this] obtain ext where
          "snd y = (t @ [MList c page]) @ ext"
          "\<forall>x \<in> set ext. campaign_of x = Some c \<and> \<not> is_price_call x" by blast
        then have "snd y = t @ (MList c page # ext)
            \<and> (\<forall>x \<in> set (MList c page # ext). campaign_of x = Some c \<and> \<not> is_price_call x)"
          by simp
        then show ?thesis by blast
      qed
    qed
  qed
qed

lemma market_list_loop_calls:
  "market_list_loop net c page pl t = Some (r, t') \<Longrightarrow>
     \<exists>ext. t' = t @ ext \<and> (\<forall>x \<in> set ext. campaign_of x = Some c \<and> \<not> is_price_call x)"
  using market_list_loop_calls_aux[of net c page pl t "(r, t')"] by simp

lemma market_update_stocks_all_calls:
  "market_update_stocks_all net c chs t = (r, t') \<Longrightarrow>
     \<exists>ext. t' = t @ ext \<and> (\<forall>x \<in> set ext. campaign_of x = Some c \<and> \<not> is_price_call x)"
proof (induction chs arbitrary: t)
  case Nil then show ?case by simp
next
  case (Cons ch chs)
  show ?case
  proof (cases "m_stocks_response net (length t) c ch")
    case None
    with Cons.prems have "market_update_stocks_all net c chs (t @ [MUpdateStocks c ch]) = (r, t')"
      by simp
    from Cons.IH[OF this] show ?thesis by auto
  next
    case (Some e)
    with Cons.prems show ?thesis by auto
  qed
qed

lemma market_channel_calls:
  assumes "market_channel net c wh ws t = Some (r, t')"
  shows "\<exists>ext. t' = t @ ext \<and> (\<forall>x \<in> set ext. campaign_of x = Some c \<and> \<not> is_price_call x)"
proof -
  obtain r1 t1 where g: "market_get_offer_ids net c t = Some (r1, t1)"
    using assms by (cases "market_get_offer_ids net c t") (auto simp: market_channel_def)
  then obtain r0 where "market_list_loop net c '''' [] t = Some (r0, t1)"
    by (auto simp: market_get_offer_ids_def split: option.splits sum.splits)
  from market_list_loop_calls[OF this] obtain e1 where
    e1: "t1 = t @ e1" "\<forall>x \<in> set e1. campaign_of x = Some c \<and> \<not> is_price_call x" by blast
  show ?thesis
  proof (cases r1)
    case (Inl e)
    with assms g e1 show ?thesis by (auto simp: market_channel_def)
  next
    case (Inr ids)
    show ?thesis
    proof (cases "market_create_stocks (m_clock net (length t1)) ws ids wh")
      case (Inl e)
      with assms g Inr e1 show ?thesis by (auto simp: market_channel_def)
    next
      case stk: (Inr sr)
      obtain stocks ids' where sr: "sr = (stocks, ids')" by (cases sr)
      show ?thesis
      proof (cases "divide stocks 2000")
        case (Inl e)
        with assms g Inr stk sr e1 show ?thesis by (auto simp: market_channel_def)
      next
        case dv: (Inr chs)
        obtain r2 t2 where u: "market_update_stocks_all net c chs t1 = (r2, t2)"
          by (cases "market_update_stocks_all net c chs t1")
        from market_update_stocks_all_calls[OF u] obtain e2 where
          e2: "t2 = t1 @ e2" "\<forall>x \<in> set e2. campaign_of x = Some c \<and> \<not> is_price_call x"
          by blast
        have "t' = t2" using assms g Inr stk sr dv u
          by (cases r2) (auto simp: market_channel_def call_async_def)
        then have "t' = t @ (e1 @ e2)" using e1 e2 by simp
        moreover have "\<forall>x \<in> set (e1 @ e2). campaign_of x = Some c \<and> \<not> is_price_call x"
          using e1 e2 by auto
        ultimately show ?thesis by blast
      qed
    qed
  qed
qed

text \<open>
  C4, as stated, fails: when the FBS catalogue request raises, the run ends after it
  with one diagnostic, and no DBS request is made.
\<close>

theorem fbs_failure_counterexample:
  "market_main (example_market_net None (Some HTTPError)) example_market_config
     = Some \<lparr>calls = [MDownload, MList ''fbs'' ''''], printed = [OtherMsg HTTPError],
             uncaught = None\<rparr>"
  by (simp add: eval_defs example_market_net_def example_market_config_def)

text \<open>
  C4, amended. The FBS and DBS steps share one \<^verbatim>\<open>try\<close> block. In every run of
  \<^verbatim>\<open>market.main\<close> in which an FBS step (the enumeration, building the stocks, a stock
  upload) raises, the exception is caught, one diagnostic is printed, \<^verbatim>\<open>main\<close> returns,
  and the calls made are those of the FBS steps alone: none is addressed to the DBS
  campaign.
\<close>

theorem fbs_failure_skips_dbs:
  assumes "m_download_response net 0 = Inr watch_remnants"
    and "market_channel net (campaign_fbs_id cfg) (warehouse_fbs_id cfg) watch_remnants [MDownload]
           = Some (Inl e, t)"
    and "campaign_fbs_id cfg \<noteq> campaign_dbs_id cfg"
  shows "market_main net cfg = Some \<lparr>calls = t, printed = [handler e], uncaught = None\<rparr>
       \<and> (\<forall>x \<in> set t. campaign_of x \<noteq> Some (campaign_dbs_id cfg))"
proof -
  have m: "market_main net cfg = Some \<lparr>calls = t, printed = [handler e], uncaught = None\<rparr>"
    using assms(1,2) by (simp add: market_main_def market_try_block_def finish_def)
  from market_channel_calls[OF assms(2)] assms(3)
  have "\<forall>x \<in> set t. campaign_of x \<noteq> Some (campaign_dbs_id cfg)" by auto
  with m show ?thesis by simp
qed

theorem fbs_failure_skips_dbs_witness:
  "m_download_response (example_market_net None (Some HTTPError)) 0 = Inr e2e_inventory
   \<and> market_channel (example_market_net None (Some HTTPError)) ''fbs'' ''w1'' e2e_inventory [MDownload]
       = Some (Inl HTTPError, [MDownload, MList ''fbs'' ''''])
   \<and> ''fbs'' \<noteq> ''dbs''
   \<and> market_main (example_market_net None (Some HTTPError)) example_market_config
       = Some \<lparr>calls = [MDownload, MList ''fbs'' ''''], printed = [handler HTTPError],
               uncaught = None\<rparr>
   \<and> list_all (\<lambda>x. campaign_of x \<noteq> Some ''dbs'') [MDownload, MList ''fbs'' '''']"
proof -
  have h1: "m_download_response (example_market_net None (Some HTTPError)) 0 = Inr e2e_inventory"
    by (simp add: example_market_net_def)
  have h2: "market_channel (example_market_net None (Some HTTPError))
              (campaign_fbs_id example_market_config) (warehouse_fbs_id example_market_config)
              e2e_inventory [MDownload]
            = Some (Inl HTTPError, [MDownload, MList ''fbs'' ''''])"
    by (simp add: market_channel_def market_get_offer_ids_def market_list_loop.simps
          example_market_net_def example_market_config_def)
  have h3: "campaign_fbs_id example_market_config \<noteq> campaign_dbs_id example_market_config"
    by (simp add: example_market_config_def)
  from fbs_failure_skips_dbs[OF h1 h2 h3] h1 h2 h3 show ?thesis
    by (simp add: example_market_config_def)
qed

text \<open>
  C5. A run of \<^verbatim>\<open>market.main\<close> in which the inventory download raises a connection
  error: nothing is printed by a handler and the exception leaves \<^verbatim>\<open>main\<close> uncaught.
\<close>

theorem market_main_download_uncaught:
  "market_main (example_market_net (Some ConnectionError) None) example_market_config
     = Some \<lparr>calls = [MDownload], printed = [], uncaught = Some ConnectionError\<rparr>"
  by (simp add: eval_defs example_market_net_def example_market_config_def)

text \<open>
  What does hold in general: \<^verbatim>\<open>seller.main\<close>, whose download is inside the \<^verbatim>\<open>try\<close>
  block, never lets an exception out and prints at most one diagnostic; \<^verbatim>\<open>market.main\<close>
  lets out exactly the exceptions of the download; and no run of \<^verbatim>\<open>market.main\<close> makes
  a price update.
\<close>

lemma seller_main_contains:
  assumes "seller_main net = Some r"
  shows "uncaught r = None \<and> length (printed r) \<le> 1"
proof -
  from assms obtain res t where "r = finish (res, t)"
    by (auto simp: seller_main_def)
  then show ?thesis by (cases res) (simp_all add: finish_def)
qed

lemma market_main_uncaught_iff:
  assumes "market_main net cfg = Some r"
  shows "uncaught r = Some e \<longleftrightarrow> m_download_response net 0 = Inl e"
proof (cases "m_download_response net 0")
  case (Inl e')
  with assms show ?thesis by (auto simp: market_main_def)
next
  case (Inr ws)
  with assms obtain res t where "r = finish (res, t)" by (auto simp: market_main_def)
  then have "uncaught r = None" by (cases res) (simp_all add: finish_def)
  with Inr show ?thesis by simp
qed

lemma market_main_never_uploads_prices:
  assumes "market_main net cfg = Some r"
  shows "\<forall>x \<in> set (calls r). \<not> is_price_call x"
proof (cases "m_download_response net 0")
  case (Inl e)
  with assms show ?thesis by (auto simp: market_main_def)
next
  case (Inr ws)
  with assms obtain res t where tb: "market_try_block net cfg ws [MDownload] = Some (res, t)"
    and r: "r = finish (res, t)"
    by (auto simp: market_main_def)
  have c: "calls r = t" using r by (cases res) (simp_all add: finish_def)
  obtain r1 t1 where f: "market_channel net (campaign_fbs_id cfg) (warehouse_fbs_id cfg) ws [MDownload]
      = Some (r1, t1)"
    using tb by (cases "market_channel net (campaign_fbs_id cfg) (warehouse_fbs_id cfg) ws [MDownload]")
      (auto simp: market_try_block_def)
  from market_channel_calls[OF f] have p1: "\<forall>x \<in> set t1. \<not> is_price_call x" by auto
  show ?thesis
  proof (cases r1)
    case (Inl e)
    with tb f have "t = t1" by (simp add: market_try_block_def)
    with p1 c show ?thesis by simp
  next
    case (Inr u)
    with tb f have "market_channel net (campaign_dbs_id cfg) (warehouse_dbs_id cfg) ws t1
      = Some (res, t)" by (simp add: market_try_block_def)
    from market_channel_calls[OF this] p1 c show ?thesis by auto
  qed
qed

end
